theory Spec2Isabelle
  imports Main "HOL-Library.Multiset"
begin

section \<open>Data model\<close>

text \<open>
  The chat view (ChatArea) keeps the messages of the open conversation in a React state
  array and derives two counters from it. The \<open>Message\<close> interface of shared/api.ts
  becomes a record. JavaScript numbers that hold identifiers are integers here; a
  nullable field is an option. Every place of ChatArea that builds a message for the
  store sets \<open>is_read\<close> to a boolean, so the optional flag is a plain \<open>bool\<close>.
  The fields \<open>id\<close> and \<open>type\<close> carry a prime, since \<open>id\<close> is a constant of HOL.
\<close>

datatype msg_type = type_message | type_file

text \<open>
  A message body and the text of the input box are JavaScript strings whose characters
  matter (\<open>trim\<close> looks at them): they are lists of UTF-16 code units. The other
  strings are only carried and compared.
\<close>

type_synonym utf16 = "nat list"

record Message =
  id' :: int
  conversation_id :: int
  attachment_id :: "int option"
  sender_id :: int
  content :: "utf16 option"
  file_name :: "string option"
  file_type :: "string option"
  description :: "string option"
  file_size :: "int option"
  created_at :: string
  type' :: msg_type
  is_read :: bool

text \<open>
  An item of the history response before \<open>ensureType\<close> has normalised it: the
  timestamp may arrive as \<open>created_at\<close>, as \<open>timestamp\<close>, or not at all, and the
  type tag may be missing.
\<close>

record RawMessage =
  raw_id :: int
  raw_conversation_id :: int
  raw_attachment_id :: "int option"
  raw_sender_id :: int
  raw_content :: "utf16 option"
  raw_file_name :: "string option"
  raw_file_type :: "string option"
  raw_description :: "string option"
  raw_file_size :: "int option"
  raw_created_at :: "string option"
  raw_timestamp :: "string option"
  raw_type :: "string option"
  raw_is_read :: bool

text \<open>
  \<open>new Date(String(x)).getTime()\<close> is a function of the platform, not of this
  repository. It is a parameter \<open>getTime\<close> of every operation that reads a clock string:
  \<open>Some t\<close> is a finite number of milliseconds, \<open>None\<close> is NaN (so
  \<open>Number.isFinite\<close> is \<open>\<noteq> None\<close>).
\<close>

type_synonym clock = "string \<Rightarrow> int option"

text \<open>JavaScript truthiness of a nullable string: neither null nor empty.\<close>

fun truthy :: "string option \<Rightarrow> bool" where
  "truthy None = False"
| "truthy (Some s) = (s \<noteq> [])"

section \<open>History normalisation and sorting (loadMessages)\<close>

definition ensureType :: "string \<Rightarrow> RawMessage \<Rightarrow> Message" where
  "ensureType now_iso raw =
     \<lparr> id' = raw_id raw,
       conversation_id = raw_conversation_id raw,
       attachment_id = raw_attachment_id raw,
       sender_id = raw_sender_id raw,
       content = raw_content raw,
       file_name = raw_file_name raw,
       file_type = raw_file_type raw,
       description = raw_description raw,
       file_size = raw_file_size raw,
       created_at = (case raw_created_at raw of Some c \<Rightarrow> c
                     | None \<Rightarrow> (case raw_timestamp raw of Some t \<Rightarrow> t | None \<Rightarrow> now_iso)),
       type' = (if truthy (raw_type raw)
                then (if raw_type raw = Some ''file'' then type_file else type_message)
                else (if raw_attachment_id raw \<noteq> None \<or> raw_file_name raw \<noteq> None
                      then type_file else type_message)),
       is_read = raw_is_read raw \<rparr>"

text \<open>
  The comparator handed to \<open>Array.prototype.sort\<close>:
  \<open>new Date(a.created_at).getTime() - new Date(b.created_at).getTime()\<close>.
  A difference with a NaN operand is NaN.
\<close>

definition compareFn :: "clock \<Rightarrow> Message \<Rightarrow> Message \<Rightarrow> int option" where
  "compareFn getTime a b =
     (case (getTime (created_at a), getTime (created_at b)) of
        (Some x, Some y) \<Rightarrow> Some (x - y)
      | _ \<Rightarrow> None)"

text \<open>
  \<open>Array.prototype.sort\<close> is stable and reads a NaN from the comparator as +0. When
  every clock string parses the comparator is consistent and the result is the one stable
  sorted arrangement, whatever algorithm the engine runs; the model is stable insertion
  (an element moves right only past elements the comparator puts strictly before it).
  With a clock string that does not parse the comparator is not consistent and
  ECMAScript leaves the order to the engine: there the model is one arrangement among
  those an engine may produce, always a permutation of the input, and nothing below
  relies on its order for such input.
\<close>

fun insert_sorted :: "('a \<Rightarrow> 'a \<Rightarrow> int option) \<Rightarrow> 'a \<Rightarrow> 'a list \<Rightarrow> 'a list" where
  "insert_sorted cmp x [] = [x]"
| "insert_sorted cmp x (y # ys) =
     (case cmp x y of
        Some v \<Rightarrow> (if v > 0 then y # insert_sorted cmp x ys else x # y # ys)
      | None \<Rightarrow> x # y # ys)"

fun array_sort :: "('a \<Rightarrow> 'a \<Rightarrow> int option) \<Rightarrow> 'a list \<Rightarrow> 'a list" where
  "array_sort cmp [] = []"
| "array_sort cmp (x # xs) = insert_sorted cmp x (array_sort cmp xs)"

section \<open>Derived unread state\<close>

text \<open>
  The predicate of every \<open>filter\<close> and \<open>find\<close> that recomputes the counters:
  \<open>m.is_read === false && m.sender_id !== currentUserId\<close>.
\<close>

definition unreadFromOthers :: "int \<Rightarrow> Message \<Rightarrow> bool" where
  "unreadFromOthers currentUserId m \<longleftrightarrow> is_read m = False \<and> sender_id m \<noteq> currentUserId"

definition newUnreadCount :: "int \<Rightarrow> Message list \<Rightarrow> nat" where
  "newUnreadCount currentUserId updated = length (filter (unreadFromOthers currentUserId) updated)"

definition firstUnread :: "int \<Rightarrow> Message list \<Rightarrow> int option" where
  "firstUnread currentUserId updated =
     (case find (unreadFromOthers currentUserId) updated of
        Some m \<Rightarrow> Some (id' m)
      | None \<Rightarrow> None)"

section \<open>Marking messages read\<close>

text \<open>
  The body of the \<open>map\<close> in \<open>sendReadReceipts\<close> (optimistic marking of incoming
  messages up to the cutoff just sent).
\<close>

definition markIncoming :: "clock \<Rightarrow> int \<Rightarrow> int \<Rightarrow> Message \<Rightarrow> Message" where
  "markIncoming getTime currentUserId cutoff msg =
     (case getTime (created_at msg) of
        Some t \<Rightarrow>
          (if sender_id msg \<noteq> currentUserId \<and> t \<le> cutoff \<and> is_read msg = False
           then msg\<lparr>is_read := True\<rparr> else msg)
      | None \<Rightarrow> msg)"

text \<open>
  The body of the \<open>map\<close> in the \<open>messages_read\<close> branch of \<open>onmessage\<close>:
  \<open>isPeerReader\<close> selects the direction.
\<close>

definition markRead :: "clock \<Rightarrow> int \<Rightarrow> int \<Rightarrow> bool \<Rightarrow> Message \<Rightarrow> Message" where
  "markRead getTime currentUserId cutoff isPeerReader msg =
     (case getTime (created_at msg) of
        None \<Rightarrow> msg
      | Some t \<Rightarrow>
          (if t > cutoff \<or> is_read msg = True then msg
           else if isPeerReader
             then (if sender_id msg = currentUserId then msg\<lparr>is_read := True\<rparr> else msg)
             else (if sender_id msg \<noteq> currentUserId then msg\<lparr>is_read := True\<rparr> else msg)))"

section \<open>The state of the chat view\<close>

datatype readyState = CONNECTING | OPEN | CLOSING | CLOSED

text \<open>The socket behind \<open>wsRef\<close>: the conversation of its URL and its ready state.\<close>

record WebSocket =
  ws_conversation :: int
  readyState :: readyState

record FileMetadata =
  name :: string
  size :: int
  mime :: string

text \<open>
  What \<open>wsRef.current.send\<close> was handed, in order. \<open>out_message\<close>: id,
  conversation_id, sender_id, content, timestamp. \<open>out_file\<close>: id, conversation_id,
  sender_id, attachment_id, file_name, file_type, description, file_size, timestamp.
  \<open>mark_as_read\<close>: last_seen_date, user_id, conversation_id.
\<close>

datatype outbound =
    out_message int int int utf16 string
  | out_file int int int int string string string int string
  | mark_as_read string int int

text \<open>
  The payload of an inbound \<open>message\<close> or \<open>file\<close> event. \<open>p_id\<close> and
  \<open>p_attachment_id\<close> hold the result of \<open>Number.parseInt\<close>: \<open>None\<close> is NaN.
\<close>

record Payload =
  p_id :: "int option"
  p_conversation_id :: int
  p_sender_id :: int
  p_content :: "utf16 option"
  p_attachment_id :: "int option"
  p_file_name :: "string option"
  p_file_type :: "string option"
  p_description :: "string option"
  p_file_size :: "int option"
  p_timestamp :: string

text \<open>
  A parsed inbound frame, by its \<open>type\<close> discriminant. A missing payload is \<open>None\<close>.
  \<open>in_messages_read\<close> carries \<open>last_seen_date\<close> and the three fields probed for the
  reader, each present only when its JavaScript type is number: \<open>user_id\<close>,
  \<open>reader_id\<close>, \<open>readerId\<close>.
\<close>

datatype inbound =
    in_message "Payload option"
  | in_file "Payload option"
  | in_messages_read "string option" "int option" "int option" "int option"
  | in_unknown

text \<open>An entry of the IntersectionObserver callback, attributes already read.\<close>

record Entry =
  createdAt :: string
  isUnreadMessage :: bool
  isFromOthers :: bool
  isIntersecting :: bool

text \<open>
  React state and refs of ChatArea that the read-receipt logic touches, followed by what
  the component shows to its surroundings: the \<open>chat.conversationId\<close> prop of the
  current render, the file of the hidden input, the frames sent, the alerts raised and the
  HTTP requests still in flight (each with the conversation its closure captured).
  An armed timeout is its deadline in milliseconds and the conversation of the closure
  that armed it; a timeout that has fired or was cleared is \<open>None\<close>. The observer is
  the conversation of the closure that created it. Flags that only drive rendering
  (loading, sending, uploading, wsConnected, page) are left out.
\<close>

record ChatArea =
  messages :: "Message list"
  newMessage :: utf16
  selectedFile :: "FileMetadata option"
  unreadCount :: nat
  firstUnreadId :: "int option"
  wsRef :: "WebSocket option"
  intersectionObserverRef :: "int option"
  pendingLastSeenDateRef :: "string option"
  readTimerRef :: "(nat \<times> int) option"
  lastSentReadDateRef :: "string option"
  conversationId :: "int option"
  fileInput :: "FileMetadata option"
  sent :: "outbound list"
  alerts :: "string list"
  fetches :: "int list"
  uploads :: "int list"

definition mounted :: ChatArea where
  "mounted =
     \<lparr> messages = [], newMessage = [], selectedFile = None, unreadCount = 0,
       firstUnreadId = None, wsRef = None, intersectionObserverRef = None,
       pendingLastSeenDateRef = None, readTimerRef = None, lastSentReadDateRef = None,
       conversationId = None, fileInput = None, sent = [], alerts = [], fetches = [],
       uploads = [] \<rparr>"

text \<open>\<open>!wsRef.current || wsRef.current.readyState !== WebSocket.OPEN\<close>, negated.\<close>

definition wsOpen :: "ChatArea \<Rightarrow> bool" where
  "wsOpen s = (case wsRef s of None \<Rightarrow> False | Some ws \<Rightarrow> readyState ws = OPEN)"

text \<open>Truthiness of \<open>chat.conversationId\<close>: defined and not 0.\<close>

definition hasConversation :: "ChatArea \<Rightarrow> bool" where
  "hasConversation s = (case conversationId s of None \<Rightarrow> False | Some c \<Rightarrow> c \<noteq> 0)"

section \<open>Conversation change and history load\<close>

definition cleanup :: "ChatArea \<Rightarrow> ChatArea" where
  "cleanup s = s\<lparr> wsRef := None, intersectionObserverRef := None, readTimerRef := None,
                  pendingLastSeenDateRef := None \<rparr>"

text \<open>
  The effect on \<open>chat.conversationId\<close>: React runs the cleanup of the previous effect,
  then the body with the new prop. With a conversation the body empties the store and
  \<open>loadMessages\<close> issues the history request; its continuation is \<open>fetchResolved\<close>.
\<close>

definition conversationChange :: "int option \<Rightarrow> ChatArea \<Rightarrow> ChatArea" where
  "conversationChange c s =
     (let s1 = (cleanup s)\<lparr>conversationId := c\<rparr> in
      case c of
        None \<Rightarrow> cleanup (s1\<lparr>messages := []\<rparr>)
      | Some n \<Rightarrow>
          (if n \<noteq> 0 then s1\<lparr>messages := [], fetches := fetches s1 @ [n]\<rparr>
           else cleanup (s1\<lparr>messages := []\<rparr>)))"

text \<open>
  The history response: \<open>ok\<close> with \<open>readed_messages\<close> and
  \<open>not_readed_messages\<close> (\<open>None\<close> when the field is missing or no array), or a
  failure (HTTP status, network or JSON error), which \<open>loadMessages\<close> only logs.
\<close>

datatype response = ok "RawMessage list option" "RawMessage list option" | failed

definition loadMessages :: "clock \<Rightarrow> int \<Rightarrow> string \<Rightarrow> response \<Rightarrow> ChatArea \<Rightarrow> ChatArea" where
  "loadMessages getTime currentUserId now_iso resp s =
     (case resp of
        failed \<Rightarrow> s
      | ok readed not_readed \<Rightarrow>
          (let readMessages =
                 (case readed of None \<Rightarrow> []
                  | Some rs \<Rightarrow> map (\<lambda>msg. (ensureType now_iso msg)\<lparr>is_read := True\<rparr>) rs);
               allUnreadMessages =
                 (case not_readed of None \<Rightarrow> []
                  | Some us \<Rightarrow> map (\<lambda>msg. (ensureType now_iso msg)\<lparr>is_read := False\<rparr>) us);
               unreadMessages = filter (\<lambda>msg. sender_id msg \<noteq> currentUserId) allUnreadMessages;
               allMessages = array_sort (compareFn getTime) (readMessages @ allUnreadMessages)
           in s\<lparr> unreadCount := length unreadMessages,
                 firstUnreadId := firstUnread currentUserId allMessages,
                 messages := allMessages \<rparr>))"

definition connectWebSocket :: "int \<Rightarrow> ChatArea \<Rightarrow> ChatArea" where
  "connectWebSocket c s =
     (if c = 0 then s
      else if wsOpen s then s
      else s\<lparr>wsRef := Some \<lparr>ws_conversation = c, readyState = CONNECTING\<rparr>\<rparr>)"

definition setupIntersectionObserver :: "int \<Rightarrow> ChatArea \<Rightarrow> ChatArea" where
  "setupIntersectionObserver c s = s\<lparr>intersectionObserverRef := Some c\<rparr>"

text \<open>
  \<open>loadAndConnect\<close> after its \<open>await\<close>: the closure of the render that issued the
  request for conversation \<open>c\<close> stores the result, connects and observes. Nothing
  compares \<open>c\<close> with the conversation of the current render.
\<close>

definition fetchResolved ::
  "clock \<Rightarrow> int \<Rightarrow> string \<Rightarrow> int \<Rightarrow> response \<Rightarrow> ChatArea \<Rightarrow> ChatArea" where
  "fetchResolved getTime currentUserId now_iso c resp s =
     (if c \<in> set (fetches s)
      then setupIntersectionObserver c
             (connectWebSocket c
               (loadMessages getTime currentUserId now_iso resp
                 (s\<lparr>fetches := remove1 c (fetches s)\<rparr>)))
      else s)"

text \<open>The browser moves the socket behind \<open>wsRef\<close> to OPEN, or closes it.\<close>

definition wsOpened :: "ChatArea \<Rightarrow> ChatArea" where
  "wsOpened s =
     (case wsRef s of
        None \<Rightarrow> s
      | Some ws \<Rightarrow> (if readyState ws = CONNECTING
                    then s\<lparr>wsRef := Some (ws\<lparr>readyState := OPEN\<rparr>)\<rparr> else s))"

definition wsClosed :: "ChatArea \<Rightarrow> ChatArea" where
  "wsClosed s =
     (case wsRef s of
        None \<Rightarrow> s
      | Some ws \<Rightarrow> s\<lparr>wsRef := Some (ws\<lparr>readyState := CLOSED\<rparr>)\<rparr>)"

section \<open>Visibility and the debounced read receipt\<close>

text \<open>
  \<open>Number.isFinite(tNew) && tNew > tOld\<close>, where \<open>tOld\<close> is minus infinity without
  a pending cursor and the parsed cursor otherwise (a comparison with NaN is false).
\<close>

definition newer :: "clock \<Rightarrow> string \<Rightarrow> string option \<Rightarrow> bool" where
  "newer getTime created current =
     (case getTime created of
        None \<Rightarrow> False
      | Some tNew \<Rightarrow>
          (if truthy current
           then (case getTime (the current) of None \<Rightarrow> False | Some tOld \<Rightarrow> tNew > tOld)
           else True))"

definition scheduleReadReceipts :: "nat \<Rightarrow> int \<Rightarrow> ChatArea \<Rightarrow> ChatArea" where
  "scheduleReadReceipts now c s = s\<lparr>readTimerRef := Some (now + 200, c)\<rparr>"

text \<open>The body of \<open>entries.forEach\<close> in the observer callback, at time \<open>now\<close>.\<close>

definition observeEntry :: "clock \<Rightarrow> nat \<Rightarrow> int \<Rightarrow> Entry \<Rightarrow> ChatArea \<Rightarrow> ChatArea" where
  "observeEntry getTime now c entry s =
     (if isIntersecting entry \<and> isUnreadMessage entry \<and> isFromOthers entry
      then scheduleReadReceipts now c
             (if createdAt entry \<noteq> [] \<and> newer getTime (createdAt entry) (pendingLastSeenDateRef s)
              then s\<lparr>pendingLastSeenDateRef := Some (createdAt entry)\<rparr>
              else s)
      else s)"

definition observerCallback :: "clock \<Rightarrow> nat \<Rightarrow> Entry list \<Rightarrow> ChatArea \<Rightarrow> ChatArea" where
  "observerCallback getTime now entries s =
     (case intersectionObserverRef s of
        None \<Rightarrow> s
      | Some c \<Rightarrow> foldl (\<lambda>st entry. observeEntry getTime now c entry st) s entries)"

text \<open>
  \<open>sendReadReceipts\<close>, run by the timeout armed for conversation \<open>c\<close>. A send on an
  open socket does not throw, so the \<open>catch\<close> branch has no case here.
\<close>

definition sendReadReceipts :: "clock \<Rightarrow> int \<Rightarrow> int \<Rightarrow> ChatArea \<Rightarrow> ChatArea" where
  "sendReadReceipts getTime currentUserId c s =
     (if \<not> wsOpen s then s
      else if \<not> truthy (pendingLastSeenDateRef s) then s
      else
        (let lastSeen = the (pendingLastSeenDateRef s);
             s1 = s\<lparr> lastSentReadDateRef := Some lastSeen,
                      sent := sent s @ [mark_as_read lastSeen currentUserId c],
                      pendingLastSeenDateRef := None \<rparr>
         in case getTime lastSeen of
              None \<Rightarrow> s1
            | Some cutoff \<Rightarrow>
                (let updated = map (markIncoming getTime currentUserId cutoff) (messages s1)
                 in s1\<lparr> messages := updated,
                        unreadCount := newUnreadCount currentUserId updated,
                        firstUnreadId := firstUnread currentUserId updated \<rparr>)))"

text \<open>Time passes to \<open>now\<close>: a timeout whose deadline has come fires once.\<close>

definition elapse :: "clock \<Rightarrow> int \<Rightarrow> nat \<Rightarrow> ChatArea \<Rightarrow> ChatArea" where
  "elapse getTime currentUserId now s =
     (case readTimerRef s of
        None \<Rightarrow> s
      | Some (deadline, c) \<Rightarrow>
          (if deadline \<le> now
           then sendReadReceipts getTime currentUserId c (s\<lparr>readTimerRef := None\<rparr>)
           else s))"

section \<open>Inbound frames (onmessage)\<close>

definition newTextMessage :: "int \<Rightarrow> Payload \<Rightarrow> Message" where
  "newTextMessage now_ms p =
     \<lparr> id' = (case p_id p of None \<Rightarrow> now_ms | Some i \<Rightarrow> i),
       conversation_id = p_conversation_id p,
       attachment_id = None,
       sender_id = p_sender_id p,
       content = p_content p,
       file_name = None, file_type = None, description = None, file_size = None,
       created_at = p_timestamp p,
       type' = type_message,
       is_read = False \<rparr>"

definition newFileMessage :: "int \<Rightarrow> Payload \<Rightarrow> Message" where
  "newFileMessage now_ms p =
     \<lparr> id' = (case p_id p of None \<Rightarrow> now_ms | Some i \<Rightarrow> i),
       conversation_id = p_conversation_id p,
       attachment_id = p_attachment_id p,
       sender_id = p_sender_id p,
       content = None,
       file_name = p_file_name p, file_type = p_file_type p,
       description = p_description p, file_size = p_file_size p,
       created_at = p_timestamp p,
       type' = type_file,
       is_read = False \<rparr>"

text \<open>The functional update of both live-append branches: append, then recompute.\<close>

definition appendLive :: "int \<Rightarrow> Message \<Rightarrow> ChatArea \<Rightarrow> ChatArea" where
  "appendLive currentUserId newMsg s =
     (let updated = messages s @ [newMsg]
      in s\<lparr> messages := updated,
             unreadCount := newUnreadCount currentUserId updated,
             firstUnreadId := firstUnread currentUserId updated \<rparr>)"

text \<open>The reader named by the frame: the first of the three fields that is a number.\<close>

definition readerId_of :: "int option \<Rightarrow> int option \<Rightarrow> int option \<Rightarrow> int option" where
  "readerId_of user_id reader_id readerId =
     (case user_id of Some u \<Rightarrow> Some u
      | None \<Rightarrow> (case reader_id of Some r \<Rightarrow> Some r | None \<Rightarrow> readerId))"

definition isSelfAckByTimestamp :: "ChatArea \<Rightarrow> string \<Rightarrow> bool" where
  "isSelfAckByTimestamp s lastSeen \<longleftrightarrow> lastSentReadDateRef s = Some lastSeen"

definition isPeerReader :: "int \<Rightarrow> int option \<Rightarrow> bool \<Rightarrow> bool" where
  "isPeerReader currentUserId readerId selfAck =
     (case readerId of Some r \<Rightarrow> r \<noteq> currentUserId | None \<Rightarrow> \<not> selfAck)"

definition messagesRead ::
  "clock \<Rightarrow> int \<Rightarrow> string option \<Rightarrow> int option \<Rightarrow> ChatArea \<Rightarrow> ChatArea" where
  "messagesRead getTime currentUserId last_seen_date readerId s =
     (if \<not> truthy last_seen_date then s
      else
        (let lastSeen = the last_seen_date in
         case getTime lastSeen of
           None \<Rightarrow> s
         | Some cutoff \<Rightarrow>
             (let selfAck = isSelfAckByTimestamp s lastSeen;
                  s1 = (if selfAck then s\<lparr>lastSentReadDateRef := None\<rparr> else s);
                  peer = isPeerReader currentUserId readerId selfAck;
                  updated = map (markRead getTime currentUserId cutoff peer) (messages s1)
              in s1\<lparr> messages := updated,
                     unreadCount := newUnreadCount currentUserId updated,
                     firstUnreadId := firstUnread currentUserId updated \<rparr>)))"

text \<open>
  The handler. A frame whose payload is missing raises inside the \<open>try\<close> (text) or
  returns early (file); an unknown type is logged. None of them changes the state.
\<close>

fun onmessage :: "clock \<Rightarrow> int \<Rightarrow> int \<Rightarrow> inbound \<Rightarrow> ChatArea \<Rightarrow> ChatArea" where
  "onmessage getTime currentUserId now_ms (in_message None) s = s"
| "onmessage getTime currentUserId now_ms (in_message (Some p)) s =
     appendLive currentUserId (newTextMessage now_ms p) s"
| "onmessage getTime currentUserId now_ms (in_file None) s = s"
| "onmessage getTime currentUserId now_ms (in_file (Some p)) s =
     appendLive currentUserId (newFileMessage now_ms p) s"
| "onmessage getTime currentUserId now_ms (in_messages_read last_seen_date u r r') s =
     messagesRead getTime currentUserId last_seen_date (readerId_of u r r') s"
| "onmessage getTime currentUserId now_ms in_unknown s = s"

section \<open>Sending\<close>

text \<open>
  \<open>String.prototype.trim\<close> removes the white space and line terminators of
  ECMAScript from both ends: U+0009 to U+000D, U+0020, U+00A0, U+1680, U+2000 to U+200A,
  U+2028, U+2029, U+202F, U+205F, U+3000 and U+FEFF.
\<close>

definition whitespace :: "nat \<Rightarrow> bool" where
  "whitespace cu \<longleftrightarrow>
     cu \<in> set [9, 10, 11, 12, 13, 32, 160, 5760, 8232, 8233, 8239, 8287, 12288, 65279]
     \<or> (8192 \<le> cu \<and> cu \<le> 8202)"

definition trim :: "utf16 \<Rightarrow> utf16" where
  "trim str = rev (dropWhile whitespace (rev (dropWhile whitespace str)))"

definition alert_not_ready :: string where
  "alert_not_ready = ''Chat connection lost or not ready. Please wait a moment and try again.''"

definition alert_file_not_ready :: string where
  "alert_file_not_ready = ''Chat connection not ready. Please wait and try again.''"

definition alert_lost_during_upload :: string where
  "alert_lost_during_upload = ''Connection lost during upload. File uploaded but not sent to chat.''"

definition optimisticMessage :: "int \<Rightarrow> int \<Rightarrow> utf16 \<Rightarrow> int \<Rightarrow> string \<Rightarrow> Message" where
  "optimisticMessage now_ms c text currentUserId now_iso =
     \<lparr> id' = now_ms,
       conversation_id = c,
       attachment_id = None,
       sender_id = currentUserId,
       content = Some text,
       file_name = None, file_type = None, description = None, file_size = None,
       created_at = now_iso,
       type' = type_message,
       is_read = False \<rparr>"

text \<open>
  \<open>sendMessage\<close> at clock reading \<open>now_ms\<close> (\<open>Date.now()\<close>) and \<open>now_iso\<close>
  (\<open>new Date().toISOString()\<close>). The optimistic update appends without recomputing
  the counters.
\<close>

definition sendMessage :: "int \<Rightarrow> int \<Rightarrow> string \<Rightarrow> ChatArea \<Rightarrow> ChatArea" where
  "sendMessage currentUserId now_ms now_iso s =
     (if trim (newMessage s) = [] then s
      else if \<not> wsOpen s then s\<lparr>alerts := alerts s @ [alert_not_ready]\<rparr>
      else if \<not> hasConversation s then s
      else
        (let c = the (conversationId s)
         in s\<lparr> sent := sent s @ [out_message now_ms c currentUserId (newMessage s) now_iso],
                newMessage := [],
                messages := messages s @
                  [optimisticMessage now_ms c (newMessage s) currentUserId now_iso] \<rparr>))"

definition handleFileSelect :: "FileMetadata option \<Rightarrow> ChatArea \<Rightarrow> ChatArea" where
  "handleFileSelect picked s =
     (case picked of
        None \<Rightarrow> s\<lparr>fileInput := None\<rparr>
      | Some f \<Rightarrow> s\<lparr>fileInput := Some f, selectedFile := Some f\<rparr>)"

definition cancelFileSelection :: "ChatArea \<Rightarrow> ChatArea" where
  "cancelFileSelection s = s\<lparr>selectedFile := None, fileInput := None\<rparr>"

text \<open>
  \<open>handleFileUpload\<close> up to its first \<open>await\<close>: the guards, then the upload request
  for the conversation of the current render.
\<close>

definition handleFileUpload :: "ChatArea \<Rightarrow> ChatArea" where
  "handleFileUpload s =
     (if fileInput s = None \<or> \<not> hasConversation s \<or> selectedFile s = None then s
      else if \<not> wsOpen s then s\<lparr>alerts := alerts s @ [alert_file_not_ready]\<rparr>
      else s\<lparr>uploads := uploads s @ [the (conversationId s)]\<rparr>)"

text \<open>
  The upload response: the attachment metadata of the backend (attachment_id, file_name,
  file_type, description, file_size), an HTTP failure, or a network error.
\<close>

datatype upload_response =
    uploaded int string string string int
  | upload_rejected
  | upload_error

definition optimisticFileMessage ::
  "int \<Rightarrow> int \<Rightarrow> int \<Rightarrow> int \<Rightarrow> string \<Rightarrow> string \<Rightarrow> string \<Rightarrow> int \<Rightarrow> string \<Rightarrow> Message" where
  "optimisticFileMessage now_ms c currentUserId att fname ftype descr fsize now_iso =
     \<lparr> id' = now_ms,
       conversation_id = c,
       attachment_id = Some att,
       sender_id = currentUserId,
       content = None,
       file_name = Some fname, file_type = Some ftype, description = Some descr,
       file_size = Some fsize,
       created_at = now_iso,
       type' = type_file,
       is_read = False \<rparr>"

text \<open>
  \<open>handleFileUpload\<close> after the upload request of conversation \<open>c\<close> has settled;
  the \<open>finally\<close> block empties the file input on every path.
\<close>

definition uploadResolved ::
  "int \<Rightarrow> int \<Rightarrow> string \<Rightarrow> int \<Rightarrow> upload_response \<Rightarrow> ChatArea \<Rightarrow> ChatArea" where
  "uploadResolved currentUserId now_ms now_iso c resp s =
     (if c \<notin> set (uploads s) then s
      else
        (let s0 = s\<lparr>uploads := remove1 c (uploads s), fileInput := None\<rparr> in
         case resp of
           uploaded att fname ftype descr fsize \<Rightarrow>
             (if \<not> wsOpen s0 then s0\<lparr>alerts := alerts s0 @ [alert_lost_during_upload]\<rparr>
              else s0\<lparr> sent := sent s0 @
                          [out_file now_ms c currentUserId att fname ftype descr fsize now_iso],
                        messages := messages s0 @
                          [optimisticFileMessage now_ms c currentUserId att fname ftype descr
                             fsize now_iso],
                        selectedFile := None \<rparr>)
         | upload_rejected \<Rightarrow> s0\<lparr>alerts := alerts s0 @ [''Failed to upload file.'']\<rparr>
         | upload_error \<Rightarrow> s0\<lparr>alerts := alerts s0 @ [''Error uploading file.'']\<rparr>))"

section \<open>Events\<close>

text \<open>
  Everything runs on the UI thread, one callback at a time. An event happens at a clock
  reading: milliseconds for timers and \<open>Date.now()\<close>, and the ISO string of the same
  instant. Before a callback runs, a timeout that is due has fired. A frame is delivered
  only by an open socket, and the observer reports only while connected.
\<close>

datatype event =
    ConversationChange "int option"
  | FetchResolved int response
  | WsOpened
  | WsClosed
  | WsFrame inbound
  | Intersections "Entry list"
  | Typed utf16
  | SendPressed
  | FileSelected "FileMetadata option"
  | FileCancelled
  | UploadPressed
  | UploadResolved int upload_response
  | Idle

fun handle :: "clock \<Rightarrow> int \<Rightarrow> nat \<Rightarrow> string \<Rightarrow> event \<Rightarrow> ChatArea \<Rightarrow> ChatArea" where
  "handle getTime u now stamp (ConversationChange c) s = conversationChange c s"
| "handle getTime u now stamp (FetchResolved c resp) s = fetchResolved getTime u stamp c resp s"
| "handle getTime u now stamp WsOpened s = wsOpened s"
| "handle getTime u now stamp WsClosed s = wsClosed s"
| "handle getTime u now stamp (WsFrame data) s =
     (if wsOpen s then onmessage getTime u (int now) data s else s)"
| "handle getTime u now stamp (Intersections entries) s = observerCallback getTime now entries s"
| "handle getTime u now stamp (Typed text) s = s\<lparr>newMessage := text\<rparr>"
| "handle getTime u now stamp SendPressed s = sendMessage u (int now) stamp s"
| "handle getTime u now stamp (FileSelected picked) s = handleFileSelect picked s"
| "handle getTime u now stamp FileCancelled s = cancelFileSelection s"
| "handle getTime u now stamp UploadPressed s = handleFileUpload s"
| "handle getTime u now stamp (UploadResolved c resp) s = uploadResolved u (int now) stamp c resp s"
| "handle getTime u now stamp Idle s = s"

definition step :: "clock \<Rightarrow> int \<Rightarrow> ChatArea \<Rightarrow> (nat \<times> string) \<times> event \<Rightarrow> ChatArea" where
  "step getTime u s te =
     (case te of ((now, stamp), ev) \<Rightarrow> handle getTime u now stamp ev (elapse getTime u now s))"

definition run :: "clock \<Rightarrow> int \<Rightarrow> ((nat \<times> string) \<times> event) list \<Rightarrow> ChatArea \<Rightarrow> ChatArea" where
  "run getTime u tes s = foldl (step getTime u) s tes"

section \<open>Vocabulary of the properties\<close>

text \<open>The instant of a message whose clock string parses.\<close>

definition timeOf :: "clock \<Rightarrow> Message \<Rightarrow> int" where
  "timeOf getTime m = the (getTime (created_at m))"

text \<open>
  Sample data for the worked instances: four clock strings a second apart, with the
  milliseconds \<open>Date\<close> gives them, and a text item of a history response.
\<close>

definition T0 :: string where "T0 = ''2024-05-01T10:00:00Z''"
definition T1 :: string where "T1 = ''2024-05-01T10:00:01Z''"
definition T2 :: string where "T2 = ''2024-05-01T10:00:02Z''"
definition T3 :: string where "T3 = ''2024-05-01T10:00:03Z''"

definition sample_clock :: clock where
  "sample_clock str =
     (if str = T0 then Some 1714557600000
      else if str = T1 then Some 1714557601000
      else if str = T2 then Some 1714557602000
      else if str = T3 then Some 1714557603000
      else None)"

text \<open>The texts \<open>hi\<close>, \<open>hi\<close> between two spaces, and \<open>ok\<close>, as code units.\<close>

definition hi :: utf16 where "hi = [104, 105]"
definition hi_padded :: utf16 where "hi_padded = [32, 104, 105, 32]"
definition okay :: utf16 where "okay = [111, 107]"

definition raw_text :: "int \<Rightarrow> int \<Rightarrow> int \<Rightarrow> string \<Rightarrow> RawMessage" where
  "raw_text i c sender stamp =
     \<lparr> raw_id = i, raw_conversation_id = c, raw_attachment_id = None, raw_sender_id = sender,
       raw_content = Some hi, raw_file_name = None, raw_file_type = None,
       raw_description = None, raw_file_size = None, raw_created_at = Some stamp,
       raw_timestamp = None, raw_type = Some ''message'', raw_is_read = False \<rparr>"

definition text_message :: "int \<Rightarrow> int \<Rightarrow> int \<Rightarrow> string \<Rightarrow> bool \<Rightarrow> Message" where
  "text_message i c sender stamp r = (ensureType [] (raw_text i c sender stamp))\<lparr>is_read := r\<rparr>"

text \<open>
  A state right after a flush of \<open>T1\<close>: the socket is open, the store holds a message
  received from user 2 and a message sent by user 1, both unread.
\<close>

definition flushed_state :: ChatArea where
  "flushed_state =
     mounted\<lparr> messages := [text_message 1 7 2 T1 False, text_message 2 7 1 T1 False],
              unreadCount := 1, firstUnreadId := Some 1,
              wsRef := Some \<lparr>ws_conversation = 7, readyState = OPEN\<rparr>,
              intersectionObserverRef := Some 7, conversationId := Some 7,
              lastSentReadDateRef := Some T1 \<rparr>"

text \<open>The same conversation before the flush: \<open>T1\<close> is the pending cursor.\<close>

definition pending_state :: ChatArea where
  "pending_state =
     mounted\<lparr> messages := [text_message 1 7 2 T1 False, text_message 2 7 1 T1 False],
              unreadCount := 1, firstUnreadId := Some 1,
              wsRef := Some \<lparr>ws_conversation = 7, readyState = OPEN\<rparr>,
              intersectionObserverRef := Some 7, conversationId := Some 7,
              pendingLastSeenDateRef := Some T1 \<rparr>"

text \<open>
  The derived unread state in the words of the specification: the number of unread
  messages of other senders, and the boundary, which is the id of the first such message
  in store order or nothing when there is none.
\<close>

definition unread_boundary :: "int \<Rightarrow> Message list \<Rightarrow> int option \<Rightarrow> bool" where
  "unread_boundary u ms b =
     (case b of
        None \<Rightarrow> list_all (\<lambda>m. is_read m \<or> sender_id m = u) ms
      | Some i \<Rightarrow>
          (\<exists>k \<in> {..<length ms}. id' (ms ! k) = i \<and> \<not> is_read (ms ! k) \<and> sender_id (ms ! k) \<noteq> u
             \<and> list_all (\<lambda>m. is_read m \<or> sender_id m = u) (take k ms)))"

definition counters_correct :: "int \<Rightarrow> ChatArea \<Rightarrow> bool" where
  "counters_correct u s \<longleftrightarrow>
     unreadCount s = length (filter (\<lambda>m. \<not> is_read m \<and> sender_id m \<noteq> u) (messages s))
     \<and> unread_boundary u (messages s) (firstUnreadId s)"

text \<open>
  A stored message before and after an operation: unchanged, or flipped from unread to
  read. A store after an operation: every old position still holds its message, up to
  such a flip.
\<close>

definition marks_only :: "Message \<Rightarrow> Message \<Rightarrow> bool" where
  "marks_only m m' \<longleftrightarrow> m' = m \<or> (is_read m = False \<and> m' = m\<lparr>is_read := True\<rparr>)"

definition read_monotone :: "Message list \<Rightarrow> Message list \<Rightarrow> bool" where
  "read_monotone ms ms' \<longleftrightarrow>
     length ms \<le> length ms' \<and> (\<forall>i \<in> {..<length ms}. marks_only (ms ! i) (ms' ! i))"

text \<open>The events of one conversation after its load: no switch, no further load.\<close>

fun after_load :: "event \<Rightarrow> bool" where
  "after_load (ConversationChange c) = False"
| "after_load (FetchResolved c resp) = False"
| "after_load ev = True"

text \<open>
  The clock readings of the worked traces, and a trace in which conversation 7 is loaded
  with one unread message of user 2, the view switches to conversation 8, whose history
  request fails, the socket opens and the current user sends a text.
\<close>

definition at0 :: "nat \<times> string" where "at0 = (1714557600000, T0)"
definition at1 :: "nat \<times> string" where "at1 = (1714557601000, T1)"
definition at2 :: "nat \<times> string" where "at2 = (1714557602000, T2)"
definition at3 :: "nat \<times> string" where "at3 = (1714557603000, T3)"

definition failed_load_trace :: "((nat \<times> string) \<times> event) list" where
  "failed_load_trace =
     [(at0, ConversationChange (Some 7)),
      (at0, FetchResolved 7 (ok (Some []) (Some [raw_text 1 7 2 T0]))),
      (at1, ConversationChange (Some 8)),
      (at1, FetchResolved 8 failed),
      (at2, WsOpened),
      (at2, Typed hi),
      (at3, SendPressed)]"

text \<open>
  The view opens conversation 7 and switches to conversation 8 while the history request
  of 7 is in flight; the request of 8 settles first. In the longer trace the request of 7
  settles after it.
\<close>

definition switch_trace :: "((nat \<times> string) \<times> event) list" where
  "switch_trace =
     [(at0, ConversationChange (Some 7)),
      (at1, ConversationChange (Some 8)),
      (at2, FetchResolved 8 (ok (Some []) (Some [raw_text 2 8 2 T1])))]"

definition stale_fetch_trace :: "((nat \<times> string) \<times> event) list" where
  "stale_fetch_trace =
     switch_trace @ [(at3, FetchResolved 7 (ok (Some [raw_text 1 7 2 T0]) (Some [])))]"

text \<open>
  A burst of visibility reports inside one debounce window: the instants do not go back
  and each report comes less than 200 ms after the one before it. A report schedules when
  its element is on screen, unread and of another sender; its clock string is one that
  parses. The burst as events: one observer callback for each report.
\<close>

fun in_window :: "nat list \<Rightarrow> bool" where
  "in_window (t # t' # ts) = (t \<le> t' \<and> t' < t + 200 \<and> in_window (t' # ts))"
| "in_window ts = True"

definition schedules :: "clock \<Rightarrow> Entry \<Rightarrow> bool" where
  "schedules getTime entry \<longleftrightarrow>
     isIntersecting entry \<and> isUnreadMessage entry \<and> isFromOthers entry
     \<and> createdAt entry \<noteq> [] \<and> getTime (createdAt entry) \<noteq> None"

definition visibility_events :: "((nat \<times> string) \<times> Entry) list \<Rightarrow> ((nat \<times> string) \<times> event) list" where
  "visibility_events reports = map (\<lambda>(at, entry). (at, Intersections [entry])) reports"

definition seen :: "string \<Rightarrow> Entry" where
  "seen stamp = \<lparr>createdAt = stamp, isUnreadMessage = True, isFromOthers = True, isIntersecting = True\<rparr>"

text \<open>
  A cursor left over: conversation 7 is loaded, a message of instant \<open>T3\<close> is seen
  while the socket is still connecting, the timeout fires a second later on the socket
  that is not open, and then the socket opens.
\<close>

definition leftover_cursor_trace :: "((nat \<times> string) \<times> event) list" where
  "leftover_cursor_trace =
     [(at0, ConversationChange (Some 7)),
      (at0, FetchResolved 7 (ok (Some []) (Some [raw_text 1 7 2 T1, raw_text 3 7 2 T3]))),
      (at0, Intersections [seen T3]),
      (at1, WsOpened)]"

section \<open>Sorting\<close>

lemma mset_insert_sorted: "mset (insert_sorted cmp x ys) = add_mset x (mset ys)"
  by (induction ys) (auto split: option.splits)

lemma mset_array_sort: "mset (array_sort cmp xs) = mset xs"
  by (induction xs) (auto simp: mset_insert_sorted)

lemma set_array_sort: "set (array_sort cmp xs) = set xs"
  by (metis mset_array_sort set_mset_mset)

lemma insert_sorted_insort_key:
  "getTime (created_at x) \<noteq> None \<Longrightarrow> \<forall>y\<in>set ys. getTime (created_at y) \<noteq> None \<Longrightarrow>
   insert_sorted (compareFn getTime) x ys = insort_key (timeOf getTime) x ys"
  by (induction ys) (auto simp: compareFn_def timeOf_def)

lemma array_sort_sort_key:
  "\<forall>y\<in>set xs. getTime (created_at y) \<noteq> None \<Longrightarrow>
   array_sort (compareFn getTime) xs = sort_key (timeOf getTime) xs"
  by (induction xs) (auto simp: insert_sorted_insort_key set_array_sort)

lemma sample_strings_distinct:
  "T0 \<noteq> T1" "T0 \<noteq> T2" "T0 \<noteq> T3" "T1 \<noteq> T2" "T1 \<noteq> T3" "T2 \<noteq> T3"
  "T1 \<noteq> T0" "T2 \<noteq> T0" "T3 \<noteq> T0" "T2 \<noteq> T1" "T3 \<noteq> T1" "T3 \<noteq> T2"
  "T0 \<noteq> []" "T1 \<noteq> []" "T2 \<noteq> []" "T3 \<noteq> []"
  by (simp_all add: T0_def T1_def T2_def T3_def)

lemma sample_clock_simps:
  "sample_clock T0 = Some 1714557600000" "sample_clock T1 = Some 1714557601000"
  "sample_clock T2 = Some 1714557602000" "sample_clock T3 = Some 1714557603000"
  by (simp_all add: sample_clock_def sample_strings_distinct)

lemma text_message_simps:
  "id' (text_message i c sender stamp r) = i"
  "conversation_id (text_message i c sender stamp r) = c"
  "sender_id (text_message i c sender stamp r) = sender"
  "created_at (text_message i c sender stamp r) = stamp"
  "is_read (text_message i c sender stamp r) = r"
  "(text_message i c sender stamp r)\<lparr>is_read := r'\<rparr> = text_message i c sender stamp r'"
  "(ensureType w (raw_text i c sender stamp))\<lparr>is_read := r\<rparr> = text_message i c sender stamp r"
  "created_at (ensureType w (raw_text i c sender stamp)) = stamp"
  by (simp_all add: text_message_def ensureType_def raw_text_def)

section \<open>History load\<close>

text \<open>
  C7. A history load whose clock strings all parse replaces the store by the read array
  tagged read followed by the unread array tagged unread, stably sorted by instant: the
  result is the stable sort of that concatenation, whatever the store held before; it has
  the same items, ascending instants, and items of equal instant keep their order.
\<close>

theorem load_replaces_store_with_stable_sort:
  assumes "\<forall>raw \<in> set rs \<union> set us. getTime (created_at (ensureType now_iso raw)) \<noteq> None"
  shows "let tagged = map (\<lambda>raw. (ensureType now_iso raw)\<lparr>is_read := True\<rparr>) rs @
                      map (\<lambda>raw. (ensureType now_iso raw)\<lparr>is_read := False\<rparr>) us;
             store = messages (loadMessages getTime u now_iso (ok (Some rs) (Some us)) s)
         in store = sort_key (timeOf getTime) tagged
          \<and> mset store = mset tagged
          \<and> sorted (map (timeOf getTime) store)
          \<and> (\<forall>k. filter (\<lambda>m. timeOf getTime m = k) store =
                   filter (\<lambda>m. timeOf getTime m = k) tagged)"
proof -
  define tagged where "tagged = map (\<lambda>raw. (ensureType now_iso raw)\<lparr>is_read := True\<rparr>) rs @
                      map (\<lambda>raw. (ensureType now_iso raw)\<lparr>is_read := False\<rparr>) us"
  have parse: "\<forall>y\<in>set tagged. getTime (created_at y) \<noteq> None"
    using assms by (auto simp: tagged_def)
  have store: "messages (loadMessages getTime u now_iso (ok (Some rs) (Some us)) s) =
               sort_key (timeOf getTime) tagged"
    using array_sort_sort_key [OF parse] by (simp add: loadMessages_def Let_def tagged_def)
  show ?thesis
    unfolding Let_def tagged_def [symmetric] store
    by (simp add: sort_key_stable)
qed

theorem load_replaces_store_with_stable_sort_witness:
  "sample_clock (created_at (ensureType [] (raw_text 1 7 2 T2))) \<noteq> None
   \<and> sample_clock (created_at (ensureType [] (raw_text 2 7 2 T1))) \<noteq> None
   \<and> sample_clock (created_at (ensureType [] (raw_text 3 7 1 T1))) \<noteq> None
   \<and> messages (loadMessages sample_clock 1 [] (ok (Some [raw_text 1 7 2 T2])
        (Some [raw_text 2 7 2 T1, raw_text 3 7 1 T1])) (mounted\<lparr>messages := [text_message 9 7 2 T0 True]\<rparr>))
     = [text_message 2 7 2 T1 False, text_message 3 7 1 T1 False, text_message 1 7 2 T2 True]"
proof -
  let ?s = "mounted\<lparr>messages := [text_message 9 7 2 T0 True]\<rparr>"
  have parse: "\<forall>raw \<in> set [raw_text 1 7 2 T2] \<union> set [raw_text 2 7 2 T1, raw_text 3 7 1 T1].
      sample_clock (created_at (ensureType [] raw)) \<noteq> None"
    by (simp add: text_message_simps sample_clock_simps)
  have "messages (loadMessages sample_clock 1 [] (ok (Some [raw_text 1 7 2 T2])
          (Some [raw_text 2 7 2 T1, raw_text 3 7 1 T1])) ?s)
        = sort_key (timeOf sample_clock)
            [text_message 1 7 2 T2 True, text_message 2 7 2 T1 False, text_message 3 7 1 T1 False]"
    using load_replaces_store_with_stable_sort [OF parse, of 1 ?s]
    by (simp add: Let_def text_message_simps)
  also have "\<dots> = [text_message 2 7 2 T1 False, text_message 3 7 1 T1 False,
                     text_message 1 7 2 T2 True]"
    by (simp add: timeOf_def text_message_simps sample_clock_simps)
  finally show ?thesis
    using parse by simp
qed

section \<open>Reconciliation\<close>

lemma markRead_twice: "markRead g u c p (markRead g u c p m) = markRead g u c p m"
  by (auto simp: markRead_def split: option.splits)

lemma markRead_keeps_read: "is_read m \<Longrightarrow> markRead g u c p m = m"
  by (auto simp: markRead_def split: option.splits)

text \<open>
  C8. Marking read up to a cutoff in one direction is idempotent on the store, a message
  that is already read is returned as it is, and a whole \<open>messages_read\<close> frame that
  names its reader (so that both applications take the same direction) leaves the state
  of its first application unchanged when applied again.
\<close>

theorem reconciliation_idempotent:
  "map (markRead g u c p) (map (markRead g u c p) ms) = map (markRead g u c p) ms
   \<and> (is_read m \<longrightarrow> markRead g u c p m = m)
   \<and> messagesRead g u d (Some r) (messagesRead g u d (Some r) s) = messagesRead g u d (Some r) s"
proof (intro conjI)
  show "map (markRead g u c p) (map (markRead g u c p) ms) = map (markRead g u c p) ms"
    by (simp add: markRead_twice)
  show "is_read m \<longrightarrow> markRead g u c p m = m"
    by (simp add: markRead_keeps_read)
  show "messagesRead g u d (Some r) (messagesRead g u d (Some r) s) = messagesRead g u d (Some r) s"
    by (auto simp: messagesRead_def Let_def isSelfAckByTimestamp_def isPeerReader_def
        markRead_twice comp_def split: option.splits)
qed

theorem reconciliation_idempotent_witness:
  "is_read (text_message 1 7 2 T1 True)
   \<and> markRead sample_clock 1 1714557602000 False (text_message 1 7 2 T1 True) = text_message 1 7 2 T1 True
   \<and> map (markRead sample_clock 1 1714557602000 False)
       (map (markRead sample_clock 1 1714557602000 False) [text_message 2 7 2 T1 False, text_message 3 7 1 T1 False])
     = [text_message 2 7 2 T1 True, text_message 3 7 1 T1 False]"
  using reconciliation_idempotent
    [of sample_clock 1 1714557602000 False "[text_message 2 7 2 T1 False, text_message 3 7 1 T1 False]"
        "text_message 1 7 2 T1 True"]
  by (simp add: text_message_simps markRead_def sample_clock_simps)

lemma markRead_peer_keeps_received:
  "sender_id m \<noteq> u \<Longrightarrow> markRead g u c True m = m"
  by (cases "g (created_at m)") (simp_all add: markRead_def)

lemma markRead_self_keeps_sent:
  "sender_id m = u \<Longrightarrow> markRead g u c False m = m"
  by (cases "g (created_at m)") (simp_all add: markRead_def)

lemma sender_id_markRead: "sender_id (markRead g u c p m) = sender_id m"
  by (cases "g (created_at m)") (simp_all add: markRead_def)

lemma received_untouched_by_peer:
  "filter (\<lambda>m. sender_id m \<noteq> u) (map (markRead g u c True) ms)
     = filter (\<lambda>m. sender_id m \<noteq> u) ms"
  by (induction ms) (simp_all add: sender_id_markRead markRead_peer_keeps_received)

lemma sent_untouched_by_self:
  "filter (\<lambda>m. sender_id m = u) (map (markRead g u c False) ms)
     = filter (\<lambda>m. sender_id m = u) ms"
  by (induction ms) (simp_all add: sender_id_markRead markRead_self_keeps_sent)

text \<open>
  C1, as the code has it. A frame with a timestamp that parses is classified by the
  reader it names, whether or not the timestamp equals the last flushed one: a reader
  other than the current user makes it a peer action, the current user as reader makes it
  a self-read. Only a frame that names no reader is classified by its timestamp: a match
  with the last flushed value is a self-echo, anything else a peer action. The peer
  direction leaves received messages as they are, the self direction leaves sent
  messages as they are, and a matching timestamp clears the remembered value in every
  case.
\<close>

theorem named_reader_decides_direction:
  assumes "truthy d" and "getTime (the d) = Some cutoff"
  shows "(readerId_of a b c = Some r \<longrightarrow>
            isPeerReader u (readerId_of a b c) (isSelfAckByTimestamp s (the d)) = (r \<noteq> u)
          \<and> messages (onmessage getTime u now (in_messages_read d a b c) s)
              = map (markRead getTime u cutoff (r \<noteq> u)) (messages s))
       \<and> (readerId_of a b c = None \<longrightarrow>
            isPeerReader u (readerId_of a b c) (isSelfAckByTimestamp s (the d))
              = (lastSentReadDateRef s \<noteq> d)
          \<and> messages (onmessage getTime u now (in_messages_read d a b c) s)
              = map (markRead getTime u cutoff (lastSentReadDateRef s \<noteq> d)) (messages s))
       \<and> filter (\<lambda>m. sender_id m \<noteq> u) (map (markRead getTime u cutoff True) (messages s))
           = filter (\<lambda>m. sender_id m \<noteq> u) (messages s)
       \<and> filter (\<lambda>m. sender_id m = u) (map (markRead getTime u cutoff False) (messages s))
           = filter (\<lambda>m. sender_id m = u) (messages s)
       \<and> lastSentReadDateRef (onmessage getTime u now (in_messages_read d a b c) s)
           = (if lastSentReadDateRef s = d then None else lastSentReadDateRef s)"
proof -
  obtain x where d: "d = Some x" "x \<noteq> []"
    using assms(1) by (cases d) auto
  have store: "messages (onmessage getTime u now (in_messages_read d a b c) s)
           = map (markRead getTime u cutoff
                    (isPeerReader u (readerId_of a b c) (isSelfAckByTimestamp s (the d))))
               (messages s)"
    using assms(2) d by (simp add: messagesRead_def Let_def)
  have named: "isPeerReader u (readerId_of a b c) (isSelfAckByTimestamp s (the d)) = (r \<noteq> u)"
    if "readerId_of a b c = Some r"
    using that by (simp add: isPeerReader_def)
  have unnamed: "isPeerReader u (readerId_of a b c) (isSelfAckByTimestamp s (the d))
                   = (lastSentReadDateRef s \<noteq> d)"
    if "readerId_of a b c = None"
    using that d by (simp add: isPeerReader_def isSelfAckByTimestamp_def)
  have token: "lastSentReadDateRef (onmessage getTime u now (in_messages_read d a b c) s)
           = (if lastSentReadDateRef s = d then None else lastSentReadDateRef s)"
    using assms(2) d by (simp add: messagesRead_def Let_def isSelfAckByTimestamp_def)
  show ?thesis
  proof (intro conjI impI)
    assume r: "readerId_of a b c = Some r"
    show "isPeerReader u (readerId_of a b c) (isSelfAckByTimestamp s (the d)) = (r \<noteq> u)"
      using r by (rule named)
    show "messages (onmessage getTime u now (in_messages_read d a b c) s)
              = map (markRead getTime u cutoff (r \<noteq> u)) (messages s)"
      unfolding store named [OF r] ..
  next
    assume n: "readerId_of a b c = None"
    show "isPeerReader u (readerId_of a b c) (isSelfAckByTimestamp s (the d))
              = (lastSentReadDateRef s \<noteq> d)"
      using n by (rule unnamed)
    show "messages (onmessage getTime u now (in_messages_read d a b c) s)
              = map (markRead getTime u cutoff (lastSentReadDateRef s \<noteq> d)) (messages s)"
      unfolding store unnamed [OF n] ..
  qed (rule received_untouched_by_peer sent_untouched_by_self token)+
qed

lemma flushed_state_simps:
  "messages flushed_state = [text_message 1 7 2 T1 False, text_message 2 7 1 T1 False]"
  "lastSentReadDateRef flushed_state = Some T1"
  by (simp_all add: flushed_state_def)

theorem named_reader_decides_direction_witness:
  "truthy (Some T1) \<and> sample_clock (the (Some T1)) = Some 1714557601000
   \<and> readerId_of (Some 2) None None = Some 2
   \<and> readerId_of None None None = None
   \<and> lastSentReadDateRef flushed_state = Some T1
   \<and> messages (onmessage sample_clock 1 0 (in_messages_read (Some T1) (Some 2) None None) flushed_state)
       = [text_message 1 7 2 T1 False, text_message 2 7 1 T1 True]
   \<and> messages (onmessage sample_clock 1 0 (in_messages_read (Some T1) None None None) flushed_state)
       = [text_message 1 7 2 T1 True, text_message 2 7 1 T1 False]
   \<and> lastSentReadDateRef (onmessage sample_clock 1 0 (in_messages_read (Some T1) (Some 2) None None) flushed_state)
       = None"
proof -
  have h: "truthy (Some T1)" "sample_clock (the (Some T1)) = Some 1714557601000"
    by (simp_all add: sample_strings_distinct sample_clock_simps)
  have r: "readerId_of (Some 2) None None = Some 2" "readerId_of None None None = None"
    by (simp_all add: readerId_of_def)
  show ?thesis
    using named_reader_decides_direction
      [where d = "Some T1" and getTime = sample_clock and cutoff = 1714557601000
         and a = "Some 2" and b = None and c = None and r = 2 and u = 1
         and s = flushed_state and now = 0, OF h]
      named_reader_decides_direction
      [where d = "Some T1" and getTime = sample_clock and cutoff = 1714557601000
         and a = None and b = None and c = None and u = 1
         and s = flushed_state and now = 0, OF h]
      h r
    by (simp add: flushed_state_simps markRead_def text_message_simps sample_clock_simps)
qed

text \<open>
  The claim C1 as stated fails on this frame: the timestamp matches the last flush, the
  frame names user 2 and the current user is 1; the frame is taken as a peer action, the
  received message 1 stays unread and the sent message 2 becomes read.
\<close>

theorem self_echo_priority_counterexample:
  "isSelfAckByTimestamp flushed_state T1
   \<and> isPeerReader 1 (readerId_of (Some 2) None None) (isSelfAckByTimestamp flushed_state T1)
   \<and> map is_read (messages flushed_state) = [False, False]
   \<and> map sender_id (messages flushed_state) = [2, 1]
   \<and> map is_read (messages (handle sample_clock 1 0 T1 (WsFrame (in_messages_read (Some T1) (Some 2) None None))
         flushed_state)) = [False, True]"
  by (simp add: flushed_state_def isSelfAckByTimestamp_def isPeerReader_def readerId_of_def
      wsOpen_def messagesRead_def Let_def markRead_def text_message_simps sample_clock_simps
      sample_strings_distinct)

lemma sendReadReceipts_flush:
  assumes "wsOpen s" "pendingLastSeenDateRef s = Some T" "T \<noteq> []" "getTime T = Some cutoff"
  shows "sendReadReceipts getTime u c s =
           s\<lparr> lastSentReadDateRef := Some T,
               sent := sent s @ [mark_as_read T u c],
               pendingLastSeenDateRef := None,
               messages := map (markIncoming getTime u cutoff) (messages s),
               unreadCount := newUnreadCount u (map (markIncoming getTime u cutoff) (messages s)),
               firstUnreadId := firstUnread u (map (markIncoming getTime u cutoff) (messages s)) \<rparr>"
  using assms by (simp add: sendReadReceipts_def Let_def)

text \<open>
  C4. After a flush of \<open>T\<close>, the first \<open>messages_read\<close> frame with that timestamp and
  no reader is a self-echo: it marks in the self direction and clears the remembered
  timestamp. The same frame again, with no flush in between, no longer matches and is a
  peer action.
\<close>

theorem self_echo_token_single_use:
  assumes "wsOpen s" and "pendingLastSeenDateRef s = Some T" and "T \<noteq> []"
    and "getTime T = Some cutoff"
  shows "let frame = in_messages_read (Some T) None None None;
             s1 = sendReadReceipts getTime u c s;
             s2 = onmessage getTime u now frame s1;
             s3 = onmessage getTime u now' frame s2
         in lastSentReadDateRef s1 = Some T
          \<and> isSelfAckByTimestamp s1 T
          \<and> \<not> isPeerReader u (readerId_of None None None) (isSelfAckByTimestamp s1 T)
          \<and> messages s2 = map (markRead getTime u cutoff False) (messages s1)
          \<and> lastSentReadDateRef s2 = None
          \<and> \<not> isSelfAckByTimestamp s2 T
          \<and> isPeerReader u (readerId_of None None None) (isSelfAckByTimestamp s2 T)
          \<and> messages s3 = map (markRead getTime u cutoff True) (messages s2)"
  using assms(3,4)
  by (simp add: sendReadReceipts_flush [where getTime = getTime and T = T, OF assms] Let_def
      messagesRead_def
      isSelfAckByTimestamp_def isPeerReader_def readerId_of_def)

theorem self_echo_token_single_use_witness:
  "wsOpen pending_state \<and> pendingLastSeenDateRef pending_state = Some T1 \<and> T1 \<noteq> []
   \<and> sample_clock T1 = Some 1714557601000
   \<and> map is_read (messages (sendReadReceipts sample_clock 1 7 pending_state)) = [True, False]
   \<and> map is_read (messages (onmessage sample_clock 1 0 (in_messages_read (Some T1) None None None)
        (onmessage sample_clock 1 0 (in_messages_read (Some T1) None None None)
          (sendReadReceipts sample_clock 1 7 pending_state)))) = [True, True]"
proof -
  have h: "wsOpen pending_state" "pendingLastSeenDateRef pending_state = Some T1" "T1 \<noteq> []"
    "sample_clock T1 = Some 1714557601000"
    by (simp_all add: pending_state_def wsOpen_def sample_strings_distinct sample_clock_simps)
  have m: "messages pending_state = [text_message 1 7 2 T1 False, text_message 2 7 1 T1 False]"
    by (simp add: pending_state_def)
  show ?thesis
    using self_echo_token_single_use
      [where getTime = sample_clock and T = T1, OF h, of 1 7 0 0] h
    by (simp add: Let_def sendReadReceipts_flush [where getTime = sample_clock and T = T1, OF h]
        m markRead_def markIncoming_def
        text_message_simps sample_clock_simps)
qed

section \<open>Sending\<close>

text \<open>
  C9. While the socket is not open, a text send and a file send emit no frame, start no
  upload, touch neither the store nor the pending input (the typed text, the selected
  file, the file of the input), and a send that has something to send raises the
  connection alert.
\<close>

theorem send_blocked_while_not_open:
  assumes "\<not> wsOpen s"
  shows "sent (sendMessage u now_ms now_iso s) = sent s
       \<and> newMessage (sendMessage u now_ms now_iso s) = newMessage s
       \<and> messages (sendMessage u now_ms now_iso s) = messages s
       \<and> alerts (sendMessage u now_ms now_iso s)
           = (if trim (newMessage s) = [] then alerts s else alerts s @ [alert_not_ready])
       \<and> sent (handleFileUpload s) = sent s
       \<and> uploads (handleFileUpload s) = uploads s
       \<and> messages (handleFileUpload s) = messages s
       \<and> selectedFile (handleFileUpload s) = selectedFile s
       \<and> fileInput (handleFileUpload s) = fileInput s
       \<and> alerts (handleFileUpload s)
           = (if fileInput s \<noteq> None \<and> hasConversation s \<and> selectedFile s \<noteq> None
              then alerts s @ [alert_file_not_ready] else alerts s)"
  using assms by (simp add: sendMessage_def handleFileUpload_def)

theorem send_blocked_while_not_open_witness:
  "\<not> wsOpen (mounted\<lparr>newMessage := hi, conversationId := Some 7\<rparr>)
   \<and> sent (sendMessage 1 5 T0 (mounted\<lparr>newMessage := hi, conversationId := Some 7\<rparr>)) = []
   \<and> newMessage (sendMessage 1 5 T0 (mounted\<lparr>newMessage := hi, conversationId := Some 7\<rparr>)) = hi
   \<and> alerts (sendMessage 1 5 T0 (mounted\<lparr>newMessage := hi, conversationId := Some 7\<rparr>))
       = [alert_not_ready]"
proof -
  let ?s = "mounted\<lparr>newMessage := hi, conversationId := Some 7\<rparr>"
  have closed: "\<not> wsOpen ?s"
    by (simp add: wsOpen_def mounted_def)
  have "trim (newMessage ?s) \<noteq> []"
    by (simp add: trim_def whitespace_def hi_def hi_padded_def okay_def)
  then show ?thesis
    using send_blocked_while_not_open [OF closed, of 1 5 T0] closed
    by (simp add: mounted_def)
qed

text \<open>
  A text of white space only, such as a single no-break space, is blank to the first guard
  of \<open>sendMessage\<close>, which then returns without an alert and without a frame.
\<close>

lemma blank_text_returns:
  "trim [160] = []" "trim (newMessage s) = [] \<Longrightarrow> sendMessage u now_ms now_iso s = s"
  by (simp_all add: trim_def whitespace_def sendMessage_def)

lemma find_append_rejected: "\<not> P y \<Longrightarrow> find P (xs @ [y]) = find P xs"
  by (induction xs) auto

lemma own_message_not_counted:
  "sender_id m = u \<Longrightarrow> newUnreadCount u (ms @ [m]) = newUnreadCount u ms"
  "sender_id m = u \<Longrightarrow> firstUnread u (ms @ [m]) = firstUnread u ms"
  by (simp_all add: newUnreadCount_def firstUnread_def unreadFromOthers_def find_append_rejected)

text \<open>
  C10. With a text that is not blank, an open socket and a conversation, \<open>sendMessage\<close>
  sends one frame, empties the input and appends one message at the tail of the store:
  written by the current user, unread, with the typed text. Both counters keep their
  values, and the values recomputed from the new store equal those of the old store.
\<close>

theorem text_send_appends_own_unread_message:
  assumes "trim (newMessage s) \<noteq> []" and "wsOpen s" and "conversationId s = Some c" and "c \<noteq> 0"
  shows "let s' = sendMessage u now_ms now_iso s;
             m = optimisticMessage now_ms c (newMessage s) u now_iso
         in messages s' = messages s @ [m]
          \<and> sender_id m = u \<and> is_read m = False \<and> content m = Some (newMessage s)
          \<and> conversation_id m = c \<and> created_at m = now_iso
          \<and> sent s' = sent s @ [out_message now_ms c u (newMessage s) now_iso]
          \<and> newMessage s' = []
          \<and> unreadCount s' = unreadCount s
          \<and> firstUnreadId s' = firstUnreadId s
          \<and> newUnreadCount u (messages s') = newUnreadCount u (messages s)
          \<and> firstUnread u (messages s') = firstUnread u (messages s)"
proof -
  have own: "sender_id (optimisticMessage now_ms c (newMessage s) u now_iso) = u"
    by (simp add: optimisticMessage_def)
  have "sendMessage u now_ms now_iso s =
          s\<lparr> sent := sent s @ [out_message now_ms c u (newMessage s) now_iso],
              newMessage := [],
              messages := messages s @ [optimisticMessage now_ms c (newMessage s) u now_iso] \<rparr>"
    using assms by (simp add: sendMessage_def hasConversation_def)
  then show ?thesis
    using own_message_not_counted [OF own]
    by (simp add: Let_def) (simp add: optimisticMessage_def)
qed

theorem text_send_appends_own_unread_message_witness:
  "trim (newMessage (flushed_state\<lparr>newMessage := hi_padded\<rparr>)) \<noteq> []
   \<and> wsOpen (flushed_state\<lparr>newMessage := hi_padded\<rparr>)
   \<and> conversationId (flushed_state\<lparr>newMessage := hi_padded\<rparr>) = Some 7 \<and> (7::int) \<noteq> 0
   \<and> map sender_id (messages (sendMessage 1 5 T2 (flushed_state\<lparr>newMessage := hi_padded\<rparr>))) = [2, 1, 1]
   \<and> map is_read (messages (sendMessage 1 5 T2 (flushed_state\<lparr>newMessage := hi_padded\<rparr>)))
       = [False, False, False]
   \<and> unreadCount (sendMessage 1 5 T2 (flushed_state\<lparr>newMessage := hi_padded\<rparr>)) = 1
   \<and> firstUnreadId (sendMessage 1 5 T2 (flushed_state\<lparr>newMessage := hi_padded\<rparr>)) = Some 1"
proof -
  let ?s = "flushed_state\<lparr>newMessage := hi_padded\<rparr>"
  have h: "trim (newMessage ?s) \<noteq> []" "wsOpen ?s" "conversationId ?s = Some 7" "(7::int) \<noteq> 0"
    by (simp_all add: flushed_state_def trim_def whitespace_def hi_def hi_padded_def okay_def wsOpen_def)
  show ?thesis
    using text_send_appends_own_unread_message [OF h, of 1 5 T2] h
    by (simp add: Let_def) (simp add: flushed_state_def text_message_simps optimisticMessage_def)
qed

section \<open>Unread counters\<close>

lemma unread_boundary_firstUnread: "unread_boundary u ms (firstUnread u ms)"
proof (cases "find (unreadFromOthers u) ms")
  case None
  then have "list_all (\<lambda>m. is_read m \<or> sender_id m = u) ms"
    by (auto simp: find_None_iff unreadFromOthers_def list_all_iff)
  then show ?thesis
    using None by (simp add: unread_boundary_def firstUnread_def)
next
  case (Some x)
  then obtain k where k: "k < length ms" "unreadFromOthers u (ms ! k)" "x = ms ! k"
    "\<forall>j<k. \<not> unreadFromOthers u (ms ! j)"
    by (auto simp: find_Some_iff)
  have "list_all (\<lambda>m. is_read m \<or> sender_id m = u) (take k ms)"
    using k(1,4) by (auto simp: list_all_length unreadFromOthers_def)
  then show ?thesis
    using Some k(1,2,3)
    by (auto simp: unread_boundary_def firstUnread_def unreadFromOthers_def)
qed

lemma unreadFromOthers_fun: "unreadFromOthers u = (\<lambda>m. \<not> is_read m \<and> sender_id m \<noteq> u)"
  by (auto simp: fun_eq_iff unreadFromOthers_def)

lemma counters_correct_recomputed:
  "unreadCount s = newUnreadCount u (messages s) \<Longrightarrow> firstUnreadId s = firstUnread u (messages s)
   \<Longrightarrow> counters_correct u s"
  using unread_boundary_firstUnread [of u "messages s"]
  by (simp add: counters_correct_def newUnreadCount_def unreadFromOthers_fun)

lemma length_filter_mset_cong: "mset xs = mset ys \<Longrightarrow> length (filter P xs) = length (filter P ys)"
  by (metis mset_filter size_mset)

lemma loadMessages_counters: "counters_correct u (loadMessages getTime u now_iso (ok rs us) s)"
proof -
  define R where "R = (case rs of None \<Rightarrow> [] | Some xs \<Rightarrow> map (\<lambda>msg. (ensureType now_iso msg)\<lparr>is_read := True\<rparr>) xs)"
  define U where "U = (case us of None \<Rightarrow> [] | Some xs \<Rightarrow> map (\<lambda>msg. (ensureType now_iso msg)\<lparr>is_read := False\<rparr>) xs)"
  let ?s' = "loadMessages getTime u now_iso (ok rs us) s"
  have st: "messages ?s' = array_sort (compareFn getTime) (R @ U)"
    "unreadCount ?s' = length (filter (\<lambda>msg. sender_id msg \<noteq> u) U)"
    "firstUnreadId ?s' = firstUnread u (array_sort (compareFn getTime) (R @ U))"
    by (simp_all add: loadMessages_def Let_def R_def U_def)
  have R: "filter (unreadFromOthers u) R = []"
    by (auto simp: R_def unreadFromOthers_def split: option.splits)
  have U: "filter (unreadFromOthers u) U = filter (\<lambda>msg. sender_id msg \<noteq> u) U"
    by (auto simp: U_def unreadFromOthers_def filter_map comp_def split: option.splits)
  have "newUnreadCount u (messages ?s') = length (filter (unreadFromOthers u) (R @ U))"
    unfolding newUnreadCount_def st(1)
    by (rule length_filter_mset_cong) (rule mset_array_sort)
  then have "unreadCount ?s' = newUnreadCount u (messages ?s')"
    by (simp add: st(2) R U)
  then show ?thesis
    by (rule counters_correct_recomputed) (simp add: st)
qed

lemma appendLive_counters: "counters_correct u (appendLive u m s)"
  by (rule counters_correct_recomputed) (simp_all add: appendLive_def Let_def)

lemma sendReadReceipts_cases:
  "sendReadReceipts getTime u c s = s
   \<or> (messages (sendReadReceipts getTime u c s) = messages s
       \<and> unreadCount (sendReadReceipts getTime u c s) = unreadCount s
       \<and> firstUnreadId (sendReadReceipts getTime u c s) = firstUnreadId s)
   \<or> (unreadCount (sendReadReceipts getTime u c s)
         = newUnreadCount u (messages (sendReadReceipts getTime u c s))
       \<and> firstUnreadId (sendReadReceipts getTime u c s)
         = firstUnread u (messages (sendReadReceipts getTime u c s)))"
  by (simp add: sendReadReceipts_def Let_def split: option.splits)

lemma sendReadReceipts_counters:
  assumes "messages (sendReadReceipts getTime u c s) \<noteq> messages s \<or> counters_correct u s"
  shows "counters_correct u (sendReadReceipts getTime u c s)"
proof -
  let ?s' = "sendReadReceipts getTime u c s"
  consider (same) "?s' = s"
    | (kept) "messages ?s' = messages s" "unreadCount ?s' = unreadCount s"
        "firstUnreadId ?s' = firstUnreadId s"
    | (recomputed) "unreadCount ?s' = newUnreadCount u (messages ?s')"
        "firstUnreadId ?s' = firstUnread u (messages ?s')"
    using sendReadReceipts_cases [of getTime u c s] by blast
  then show ?thesis
  proof cases
    case same
    then show ?thesis using assms by simp
  next
    case kept
    then show ?thesis using assms by (simp add: counters_correct_def)
  next
    case recomputed
    then show ?thesis by (rule counters_correct_recomputed)
  qed
qed

lemma messagesRead_cases:
  "messagesRead getTime u d r s = s
   \<or> (unreadCount (messagesRead getTime u d r s)
         = newUnreadCount u (messages (messagesRead getTime u d r s))
       \<and> firstUnreadId (messagesRead getTime u d r s)
         = firstUnread u (messages (messagesRead getTime u d r s)))"
  by (simp add: messagesRead_def Let_def split: option.splits)

lemma messagesRead_counters:
  assumes "messages (messagesRead getTime u d r s) \<noteq> messages s \<or> counters_correct u s"
  shows "counters_correct u (messagesRead getTime u d r s)"
proof -
  let ?s' = "messagesRead getTime u d r s"
  consider (same) "?s' = s"
    | (recomputed) "unreadCount ?s' = newUnreadCount u (messages ?s')"
        "firstUnreadId ?s' = firstUnread u (messages ?s')"
    using messagesRead_cases [of getTime u d r s] by blast
  then show ?thesis
  proof cases
    case same
    then show ?thesis using assms by simp
  next
    case recomputed
    then show ?thesis by (rule counters_correct_recomputed)
  qed
qed

lemma sendMessage_counters:
  "unreadCount (sendMessage u now_ms now_iso s) = unreadCount s"
  "firstUnreadId (sendMessage u now_ms now_iso s) = firstUnreadId s"
  by (simp_all add: sendMessage_def Let_def)

lemma uploadResolved_counters:
  "unreadCount (uploadResolved u now_ms now_iso c resp s) = unreadCount s"
  "firstUnreadId (uploadResolved u now_ms now_iso c resp s) = firstUnreadId s"
  by (simp_all add: uploadResolved_def Let_def split: upload_response.splits)

lemma unread_boundary_own_append:
  assumes "unread_boundary u ms b" "sender_id m = u"
  shows "unread_boundary u (ms @ [m]) b"
proof (cases b)
  case None
  then show ?thesis using assms by (simp add: unread_boundary_def)
next
  case (Some i)
  have "\<exists>k \<in> {..<length ms}. id' (ms ! k) = i \<and> \<not> is_read (ms ! k) \<and> sender_id (ms ! k) \<noteq> u
             \<and> list_all (\<lambda>m. is_read m \<or> sender_id m = u) (take k ms)"
    using assms(1) Some by (simp add: unread_boundary_def)
  then obtain k where k: "k \<in> {..<length ms}" "id' (ms ! k) = i" "\<not> is_read (ms ! k)"
    "sender_id (ms ! k) \<noteq> u" "list_all (\<lambda>m. is_read m \<or> sender_id m = u) (take k ms)"
    by blast
  have k': "k \<in> {..<length (ms @ [m])}" "(ms @ [m]) ! k = ms ! k" "take k (ms @ [m]) = take k ms"
    using k(1) by (simp_all add: nth_append)
  have "\<exists>k \<in> {..<length (ms @ [m])}. id' ((ms @ [m]) ! k) = i \<and> \<not> is_read ((ms @ [m]) ! k)
             \<and> sender_id ((ms @ [m]) ! k) \<noteq> u
             \<and> list_all (\<lambda>m. is_read m \<or> sender_id m = u) (take k (ms @ [m]))"
    using k(2-5) k'(1) unfolding k'(2,3)[symmetric] by (rule_tac x = k in bexI) simp_all
  then show ?thesis
    unfolding unread_boundary_def Some by simp
qed

lemma counters_correct_own_append:
  assumes "counters_correct u s" "sender_id m = u"
    "messages s' = messages s @ [m]" "unreadCount s' = unreadCount s"
    "firstUnreadId s' = firstUnreadId s"
  shows "counters_correct u s'"
  using assms unread_boundary_own_append [of u "messages s" "firstUnreadId s" m]
  by (simp add: counters_correct_def)

lemma sendMessage_keeps_counters:
  assumes "counters_correct u s"
  shows "counters_correct u (sendMessage u now_ms now_iso s)"
proof (cases "trim (newMessage s) \<noteq> [] \<and> wsOpen s \<and> hasConversation s")
  case True
  let ?m = "optimisticMessage now_ms (the (conversationId s)) (newMessage s) u now_iso"
  have "messages (sendMessage u now_ms now_iso s) = messages s @ [?m]"
    using True by (simp add: sendMessage_def Let_def)
  moreover have "sender_id ?m = u"
    by (simp add: optimisticMessage_def)
  ultimately show ?thesis
    using assms sendMessage_counters [of u now_ms now_iso s]
    by (rule_tac counters_correct_own_append [of u s ?m]) simp_all
next
  case False
  then have "messages (sendMessage u now_ms now_iso s) = messages s"
    by (auto simp: sendMessage_def)
  then show ?thesis
    using assms sendMessage_counters [of u now_ms now_iso s]
    by (simp add: counters_correct_def)
qed

lemma uploadResolved_messages:
  "messages (uploadResolved u now_ms now_iso c resp s) = messages s
   \<or> (\<exists>m. sender_id m = u \<and> messages (uploadResolved u now_ms now_iso c resp s) = messages s @ [m])"
  by (simp add: uploadResolved_def Let_def optimisticFileMessage_def split: upload_response.splits)

lemma uploadResolved_keeps_counters:
  assumes "counters_correct u s"
  shows "counters_correct u (uploadResolved u now_ms now_iso c resp s)"
  using uploadResolved_messages [of u now_ms now_iso c resp s]
proof (elim disjE exE conjE)
  assume "messages (uploadResolved u now_ms now_iso c resp s) = messages s"
  then show ?thesis
    using assms uploadResolved_counters [of u now_ms now_iso c resp s]
    by (simp add: counters_correct_def)
next
  fix m
  assume "sender_id m = u"
    "messages (uploadResolved u now_ms now_iso c resp s) = messages s @ [m]"
  then show ?thesis
    using assms uploadResolved_counters [of u now_ms now_iso c resp s]
    by (rule_tac counters_correct_own_append [of u s m]) simp_all
qed

lemma instants: "fst at0 = 1714557600000" "snd at0 = T0" "fst at1 = 1714557601000" "snd at1 = T1"
  "fst at2 = 1714557602000" "snd at2 = T2" "fst at3 = 1714557603000" "snd at3 = T3"
  by (simp_all add: at0_def at1_def at2_def at3_def)

lemma step_unfold:
  "step getTime u s (at, ev) = handle getTime u (fst at) (snd at) ev (elapse getTime u (fst at) s)"
  by (simp add: step_def split: prod.splits)

lemma failed_load_trace_result:
  "run sample_clock 1 failed_load_trace mounted =
     mounted\<lparr> messages := [optimisticMessage 1714557603000 8 hi 1 T3],
              unreadCount := 1, firstUnreadId := Some 1,
              wsRef := Some \<lparr>ws_conversation = 8, readyState = OPEN\<rparr>,
              intersectionObserverRef := Some 8, conversationId := Some 8,
              sent := [out_message 1714557603000 8 1 hi T3] \<rparr>"
  by (simp add: run_def failed_load_trace_def step_unfold instants elapse_def mounted_def
      conversationChange_def cleanup_def fetchResolved_def loadMessages_def Let_def
      connectWebSocket_def setupIntersectionObserver_def wsOpen_def wsOpened_def
      sendMessage_def hasConversation_def trim_def whitespace_def hi_def hi_padded_def okay_def
      text_message_simps firstUnread_def unreadFromOthers_def)

text \<open>
  The claim C5 as stated fails after an optimistic send. Conversation 7 is loaded with one
  unread message of user 2; the view switches to conversation 8, which empties the store
  and leaves the counters; the history request of 8 fails; the socket opens and user 1
  sends a text. The store then holds the one message of user 1, the count still shows 1
  and the boundary still names message 1.
\<close>

theorem stale_counters_counterexample:
  "map sender_id (messages (run sample_clock 1 failed_load_trace mounted)) = [1]
   \<and> unreadCount (run sample_clock 1 failed_load_trace mounted) = 1
   \<and> firstUnreadId (run sample_clock 1 failed_load_trace mounted) = Some 1
   \<and> \<not> counters_correct 1 (run sample_clock 1 failed_load_trace mounted)"
  unfolding failed_load_trace_result
  by (simp add: mounted_def optimisticMessage_def counters_correct_def)

text \<open>
  C5, as the code has it. A history load, a live text or file message, and a flush or a
  \<open>messages_read\<close> frame that changes the store leave the count equal to the number
  of unread messages of other senders and the boundary at the first of them. An optimistic
  send (text, or file after its upload) does not recompute: both values stay as they
  were, so they are right after the send when they were right before it, as they are
  after a flush or a frame that leaves the store alone.
\<close>

theorem counters_follow_the_store:
  "counters_correct u (loadMessages getTime u now_iso (ok rs us) s)
   \<and> counters_correct u (onmessage getTime u now_ms (in_message (Some p)) s)
   \<and> counters_correct u (onmessage getTime u now_ms (in_file (Some p)) s)
   \<and> (messages (sendReadReceipts getTime u c s) \<noteq> messages s \<or> counters_correct u s
        \<longrightarrow> counters_correct u (sendReadReceipts getTime u c s))
   \<and> (messages (onmessage getTime u now_ms (in_messages_read d a b r) s) \<noteq> messages s
         \<or> counters_correct u s
        \<longrightarrow> counters_correct u (onmessage getTime u now_ms (in_messages_read d a b r) s))
   \<and> unreadCount (sendMessage u now_ms now_iso s) = unreadCount s
   \<and> firstUnreadId (sendMessage u now_ms now_iso s) = firstUnreadId s
   \<and> unreadCount (uploadResolved u now_ms now_iso c resp s) = unreadCount s
   \<and> firstUnreadId (uploadResolved u now_ms now_iso c resp s) = firstUnreadId s
   \<and> (counters_correct u s
        \<longrightarrow> counters_correct u (sendMessage u now_ms now_iso s)
          \<and> counters_correct u (uploadResolved u now_ms now_iso c resp s))"
proof (intro conjI impI)
  show "counters_correct u (loadMessages getTime u now_iso (ok rs us) s)"
    by (rule loadMessages_counters)
  show "counters_correct u (onmessage getTime u now_ms (in_message (Some p)) s)"
    by (simp add: appendLive_counters)
  show "counters_correct u (onmessage getTime u now_ms (in_file (Some p)) s)"
    by (simp add: appendLive_counters)
  show "counters_correct u (sendReadReceipts getTime u c s)"
    if "messages (sendReadReceipts getTime u c s) \<noteq> messages s \<or> counters_correct u s"
    using that by (rule sendReadReceipts_counters)
  show "counters_correct u (onmessage getTime u now_ms (in_messages_read d a b r) s)"
    if "messages (onmessage getTime u now_ms (in_messages_read d a b r) s) \<noteq> messages s
         \<or> counters_correct u s"
    using that messagesRead_counters [of getTime u d "readerId_of a b r" s] by simp
  show "counters_correct u (sendMessage u now_ms now_iso s)" if "counters_correct u s"
    using that by (rule sendMessage_keeps_counters)
  show "counters_correct u (uploadResolved u now_ms now_iso c resp s)" if "counters_correct u s"
    using that by (rule uploadResolved_keeps_counters)
qed (simp_all add: sendMessage_counters uploadResolved_counters)

lemma flushed_state_counters: "counters_correct 1 (flushed_state\<lparr>newMessage := hi\<rparr>)"
  by (rule counters_correct_recomputed)
     (simp_all add: flushed_state_def newUnreadCount_def firstUnread_def unreadFromOthers_def
        text_message_simps)

theorem counters_follow_the_store_witness:
  "counters_correct 1 (flushed_state\<lparr>newMessage := hi\<rparr>)
   \<and> counters_correct 1 (sendMessage 1 5 T2 (flushed_state\<lparr>newMessage := hi\<rparr>))
   \<and> counters_correct 1 (sendReadReceipts sample_clock 1 7 (flushed_state\<lparr>newMessage := hi\<rparr>))
   \<and> counters_correct 1 (onmessage sample_clock 1 5 (in_messages_read (Some T1) None None None)
        (flushed_state\<lparr>newMessage := hi\<rparr>))
   \<and> map sender_id (messages (sendMessage 1 5 T2 (flushed_state\<lparr>newMessage := hi\<rparr>))) = [2, 1, 1]"
proof -
  have "map sender_id (messages (sendMessage 1 5 T2 (flushed_state\<lparr>newMessage := hi\<rparr>))) = [2, 1, 1]"
    by (simp add: sendMessage_def flushed_state_def trim_def whitespace_def hi_def hi_padded_def okay_def wsOpen_def
        hasConversation_def text_message_simps optimisticMessage_def)
  then show ?thesis
    using flushed_state_counters
      counters_follow_the_store [where u = 1 and getTime = sample_clock and now_ms = 5
        and now_iso = T2 and s = "flushed_state\<lparr>newMessage := hi\<rparr>" and c = 7
        and d = "Some T1" and a = None and b = None and r = None]
    by simp
qed

section \<open>The read flag never goes back\<close>

lemma marks_only_refl: "marks_only m m"
  by (simp add: marks_only_def)

lemma marks_only_trans: "marks_only a b \<Longrightarrow> marks_only b c \<Longrightarrow> marks_only a c"
  unfolding marks_only_def by (elim disjE conjE; simp)

lemma read_monotone_refl: "read_monotone ms ms"
  by (simp add: read_monotone_def marks_only_refl)

lemma read_monotone_trans:
  "read_monotone a b \<Longrightarrow> read_monotone b c \<Longrightarrow> read_monotone a c"
proof -
  assume ab: "read_monotone a b" and bc: "read_monotone b c"
  have "marks_only (a ! i) (c ! i)" if "i < length a" for i
  proof -
    have "marks_only (a ! i) (b ! i)" "marks_only (b ! i) (c ! i)"
      using ab bc that by (simp_all add: read_monotone_def)
    then show ?thesis by (rule marks_only_trans)
  qed
  then show "read_monotone a c"
    using ab bc by (simp add: read_monotone_def)
qed

lemma read_monotone_append: "read_monotone ms (ms @ xs)"
  by (simp add: read_monotone_def nth_append marks_only_refl)

lemma read_monotone_map: "(\<And>m. marks_only m (f m)) \<Longrightarrow> read_monotone ms (map f ms)"
  by (simp add: read_monotone_def)

lemma marks_only_markIncoming: "marks_only m (markIncoming g u c m)"
  by (cases "g (created_at m)") (simp_all add: marks_only_def markIncoming_def)

lemma marks_only_markRead: "marks_only m (markRead g u c p m)"
  by (cases "g (created_at m)") (simp_all add: marks_only_def markRead_def)

lemma sendReadReceipts_monotone:
  "read_monotone (messages s) (messages (sendReadReceipts g u c s))"
  by (simp add: sendReadReceipts_def Let_def read_monotone_refl read_monotone_map
      marks_only_markIncoming split: option.splits)

lemma elapse_monotone: "read_monotone (messages s) (messages (elapse g u now s))"
  using sendReadReceipts_monotone [of "s\<lparr>readTimerRef := None\<rparr>" g u]
  by (simp add: elapse_def read_monotone_refl split: option.splits prod.splits)

lemma messagesRead_monotone:
  "read_monotone (messages s) (messages (messagesRead g u d r s))"
  by (simp add: messagesRead_def Let_def read_monotone_refl read_monotone_map
      marks_only_markRead split: option.splits)

lemma onmessage_monotone: "read_monotone (messages s) (messages (onmessage g u now data s))"
  by (cases "(g, u, now, data, s)" rule: onmessage.cases)
     (simp_all add: read_monotone_refl appendLive_def Let_def read_monotone_append
        messagesRead_monotone)

lemma observeEntry_messages: "messages (observeEntry g now c e s) = messages s"
  by (simp add: observeEntry_def scheduleReadReceipts_def)

lemma observerCallback_messages: "messages (observerCallback g now es s) = messages s"
proof -
  have "messages (foldl (\<lambda>st entry. observeEntry g now c entry st) s es) = messages s" for c
    by (induction es arbitrary: s) (simp_all add: observeEntry_messages)
  then show ?thesis
    by (simp add: observerCallback_def split: option.splits)
qed

lemma sendMessage_monotone:
  "read_monotone (messages s) (messages (sendMessage u now_ms now_iso s))"
  by (simp add: sendMessage_def Let_def read_monotone_refl read_monotone_append)

lemma uploadResolved_monotone:
  "read_monotone (messages s) (messages (uploadResolved u now_ms now_iso c resp s))"
  using uploadResolved_messages [of u now_ms now_iso c resp s]
  by (auto simp: read_monotone_refl read_monotone_append)

lemma store_untouched:
  "messages (wsOpened s) = messages s"
  "messages (wsClosed s) = messages s"
  "messages (handleFileSelect picked s) = messages s"
  "messages (cancelFileSelection s) = messages s"
  "messages (handleFileUpload s) = messages s"
  by (simp_all add: wsOpened_def wsClosed_def handleFileSelect_def cancelFileSelection_def
      handleFileUpload_def split: option.splits)

lemma handle_monotone:
  "after_load ev \<Longrightarrow> read_monotone (messages s) (messages (handle g u now stamp ev s))"
  by (cases ev)
     (simp_all add: read_monotone_refl onmessage_monotone observerCallback_messages
        store_untouched sendMessage_monotone uploadResolved_monotone)

lemma step_monotone:
  "after_load (snd te) \<Longrightarrow> read_monotone (messages s) (messages (step g u s te))"
  using read_monotone_trans [OF elapse_monotone handle_monotone]
  by (cases te) (auto simp: step_def)

lemma run_monotone:
  "list_all (\<lambda>te. after_load (snd te)) tes \<Longrightarrow>
   read_monotone (messages s) (messages (run g u tes s))"
proof (induction tes arbitrary: s)
  case Nil
  then show ?case by (simp add: run_def read_monotone_refl)
next
  case (Cons te tes)
  have first: "read_monotone (messages s) (messages (step g u s te))"
    using Cons.prems by (simp add: step_monotone)
  have rest: "read_monotone (messages (step g u s te)) (messages (run g u tes (step g u s te)))"
    using Cons.prems by (intro Cons.IH) simp
  show ?case
    using read_monotone_trans [OF first rest] by (simp add: run_def)
qed

lemma read_monotone_is_read:
  "read_monotone ms ms' \<Longrightarrow> i < length ms \<Longrightarrow> is_read (ms ! i) \<Longrightarrow> is_read (ms' ! i)"
proof -
  assume "read_monotone ms ms'" "i < length ms" "is_read (ms ! i)"
  then have "marks_only (ms ! i) (ms' ! i)" "is_read (ms ! i)"
    by (simp_all add: read_monotone_def)
  then show "is_read (ms' ! i)"
    unfolding marks_only_def by (elim disjE conjE; simp)
qed

text \<open>
  C6. Along every sequence of events of one conversation after its load (frames, flushes
  by the timer, visibility reports, sends, uploads, socket changes), the store only grows
  at its tail and every position keeps its message, except that an unread message may
  become read. In particular a message that is read stays read.
\<close>

theorem is_read_never_reverts:
  assumes "list_all (\<lambda>te. after_load (snd te)) tes"
  shows "read_monotone (messages s) (messages (run getTime u tes s))
       \<and> (\<forall>i < length (messages s).
            is_read (messages s ! i) \<longrightarrow> is_read (messages (run getTime u tes s) ! i))"
  using run_monotone [OF assms] read_monotone_is_read by blast


theorem is_read_never_reverts_witness:
  "list_all (\<lambda>te. after_load (snd te))
     [(at2, WsFrame (in_messages_read (Some T1) None None None)), (at2, Typed okay),
      (at3, SendPressed)]
   \<and> read_monotone (messages flushed_state)
        (messages (run sample_clock 1
           [(at2, WsFrame (in_messages_read (Some T1) None None None)), (at2, Typed okay),
      (at3, SendPressed)]
           flushed_state))
   \<and> map is_read (messages (run sample_clock 1
           [(at2, WsFrame (in_messages_read (Some T1) None None None)), (at2, Typed okay),
      (at3, SendPressed)]
           flushed_state)) = [True, False, False]"
proof -
  have h: "list_all (\<lambda>te. after_load (snd te))
     [(at2, WsFrame (in_messages_read (Some T1) None None None)), (at2, Typed okay),
      (at3, SendPressed)]"
    by simp
  have "map is_read (messages (run sample_clock 1
           [(at2, WsFrame (in_messages_read (Some T1) None None None)), (at2, Typed okay),
      (at3, SendPressed)]
           flushed_state)) = [True, False, False]"
    by (simp add: run_def step_unfold instants elapse_def flushed_state_def wsOpen_def
        messagesRead_def Let_def isSelfAckByTimestamp_def isPeerReader_def readerId_of_def
        sample_clock_simps sample_strings_distinct markRead_def text_message_simps
        sendMessage_def trim_def whitespace_def hi_def hi_padded_def okay_def mounted_def hasConversation_def
        optimisticMessage_def)
  then show ?thesis
    using is_read_never_reverts [OF h, of flushed_state sample_clock 1] h by simp
qed

section \<open>Conversation switch during a history request\<close>

lemma switch_trace_result:
  "run sample_clock 1 switch_trace mounted =
     mounted\<lparr> messages := [text_message 2 8 2 T1 False],
              unreadCount := 1, firstUnreadId := Some 2,
              wsRef := Some \<lparr>ws_conversation = 8, readyState = CONNECTING\<rparr>,
              intersectionObserverRef := Some 8, conversationId := Some 8,
              fetches := [7] \<rparr>"
  by (simp add: run_def switch_trace_def step_unfold instants elapse_def mounted_def
      conversationChange_def cleanup_def fetchResolved_def loadMessages_def Let_def
      connectWebSocket_def setupIntersectionObserver_def wsOpen_def
      text_message_simps firstUnread_def unreadFromOthers_def)

text \<open>
  C2 asks that a history response for a conversation the view has left is discarded. The
  code guards the switch in every other respect (the effect empties the store of the
  previous chat, and its cleanup closes the socket, disconnects the observer and clears
  the timer), but the continuation of \<open>loadMessages\<close> stores its result without
  comparing the conversation of the request with the current one. Evaluated on a run in
  which the request of conversation 7 settles after the view has switched to
  conversation 8 and loaded it: conversation 8 is active, its message was in the store,
  and the late response replaces it by the message of conversation 7.
\<close>

theorem stale_history_response_overwrites_store:
  "conversationId (run sample_clock 1 stale_fetch_trace mounted) = Some 8
   \<and> map conversation_id (messages (run sample_clock 1 switch_trace mounted)) = [8]
   \<and> map conversation_id (messages (run sample_clock 1 stale_fetch_trace mounted)) = [7]
   \<and> messages (run sample_clock 1 stale_fetch_trace mounted) = [text_message 1 7 2 T0 True]"
proof -
  have "run sample_clock 1 stale_fetch_trace mounted =
          step sample_clock 1 (run sample_clock 1 switch_trace mounted)
            (at3, FetchResolved 7 (ok (Some [raw_text 1 7 2 T0]) (Some [])))"
    by (simp add: run_def stale_fetch_trace_def)
  then show ?thesis
    unfolding switch_trace_result
    by (simp add: step_unfold instants elapse_def mounted_def fetchResolved_def
        loadMessages_def Let_def connectWebSocket_def setupIntersectionObserver_def wsOpen_def
        text_message_simps firstUnread_def unreadFromOthers_def)
qed

section \<open>Debounce\<close>

lemma in_window_snoc:
  "in_window (ts @ [t]) \<longleftrightarrow> in_window ts \<and> (ts \<noteq> [] \<longrightarrow> last ts \<le> t \<and> t < last ts + 200)"
  by (induction ts rule: in_window.induct) auto

lemma run_snoc: "run g u (tes @ [te]) s = step g u (run g u tes s) te"
  by (simp add: run_def)

lemma visibility_events_snoc:
  "visibility_events (reports @ [(at, e)]) = visibility_events reports @ [(at, Intersections [e])]"
  by (simp add: visibility_events_def)

text \<open>One report on a state whose timer, if armed, is not yet due.\<close>

lemma report_step:
  assumes "schedules g e" and "intersectionObserverRef s = Some c"
    and "case readTimerRef s of None \<Rightarrow> True | Some (d, c') \<Rightarrow> t < d"
  shows "step g u s ((t, stamp), Intersections [e]) =
           s\<lparr> pendingLastSeenDateRef :=
                 (if newer g (createdAt e) (pendingLastSeenDateRef s) then Some (createdAt e)
                  else pendingLastSeenDateRef s),
               readTimerRef := Some (t + 200, c) \<rparr>"
proof -
  have "elapse g u t s = s"
    using assms(3) by (auto simp: elapse_def split: option.splits)
  then show ?thesis
    using assms(1,2)
    by (simp add: step_def observerCallback_def observeEntry_def scheduleReadReceipts_def
        schedules_def)
qed

lemma newer_first: "g x \<noteq> None \<Longrightarrow> newer g x None"
  by (auto simp: newer_def)

lemma newer_later:
  "g x = Some a \<Longrightarrow> y \<noteq> [] \<Longrightarrow> g y = Some b \<Longrightarrow> newer g x (Some y) \<longleftrightarrow> b < a"
  by (simp add: newer_def)

lemma burst_state:
  assumes "reports \<noteq> []" and "in_window (map (\<lambda>r. fst (fst r)) reports)"
    and "\<forall>r \<in> set reports. schedules g (snd r)"
    and "intersectionObserverRef s = Some c" and "readTimerRef s = None"
    and "case pendingLastSeenDateRef s of None \<Rightarrow> True | Some x0 \<Rightarrow> x0 \<noteq> [] \<and> g x0 \<noteq> None"
  shows "\<exists>x. x \<in> (\<lambda>r. createdAt (snd r)) ` set reports \<union> set_option (pendingLastSeenDateRef s)
           \<and> x \<noteq> [] \<and> g x \<noteq> None
           \<and> (\<forall>r \<in> set reports. the (g (createdAt (snd r))) \<le> the (g x))
           \<and> (\<forall>x0 \<in> set_option (pendingLastSeenDateRef s). the (g x0) \<le> the (g x))
           \<and> run g u (visibility_events reports) s
               = s\<lparr> pendingLastSeenDateRef := Some x,
                     readTimerRef := Some (fst (fst (last reports)) + 200, c) \<rparr>"
  using assms(1,2,3)
proof (induction reports rule: rev_induct)
  case Nil
  then show ?case by simp
next
  case (snoc r rs)
  obtain t stamp e where r: "r = ((t, stamp), e)"
    by (metis prod.collapse)
  have e: "schedules g e"
    using snoc.prems(3) r by simp
  then obtain a where a: "g (createdAt e) = Some a" "createdAt e \<noteq> []"
    by (auto simp: schedules_def)
  show ?case
  proof (cases "rs = []")
    case True
    note first = report_step [OF e assms(4), where u = u and t = t and stamp = stamp]
    show ?thesis
    proof (cases "pendingLastSeenDateRef s")
      case None
      have "step g u s ((t, stamp), Intersections [e]) =
            s\<lparr> pendingLastSeenDateRef := Some (createdAt e), readTimerRef := Some (t + 200, c) \<rparr>"
        using first assms(5) None a by (simp add: newer_first)
      then show ?thesis
        using True r a None by (simp add: run_def visibility_events_def)
    next
      case (Some x0)
      then obtain b0 where x0: "x0 \<noteq> []" "g x0 = Some b0"
        using assms(6) by auto
      have step: "step g u s ((t, stamp), Intersections [e]) =
            s\<lparr> pendingLastSeenDateRef := (if b0 < a then Some (createdAt e) else Some x0),
                readTimerRef := Some (t + 200, c) \<rparr>"
        using first assms(5) Some newer_later [OF a(1) x0] by simp
      show ?thesis
      proof (cases "b0 < a")
        case True
        then show ?thesis
          using \<open>rs = []\<close> r a Some x0 step
          by (intro exI [of _ "createdAt e"]) (simp add: run_def visibility_events_def)
      next
        case False
        then show ?thesis
          using \<open>rs = []\<close> r a Some x0 step
          by (intro exI [of _ x0]) (simp add: run_def visibility_events_def)
      qed
    qed
  next
    case False
    have window: "in_window (map (\<lambda>r. fst (fst r)) rs)" "fst (fst (last rs)) \<le> t"
      "t < fst (fst (last rs)) + 200"
      using snoc.prems(2) False r by (simp_all add: in_window_snoc last_map)
    obtain x where x: "x \<in> (\<lambda>r. createdAt (snd r)) ` set rs \<union> set_option (pendingLastSeenDateRef s)"
      "x \<noteq> []" "g x \<noteq> None"
      "\<forall>r \<in> set rs. the (g (createdAt (snd r))) \<le> the (g x)"
      "\<forall>x0 \<in> set_option (pendingLastSeenDateRef s). the (g x0) \<le> the (g x)"
      "run g u (visibility_events rs) s
         = s\<lparr> pendingLastSeenDateRef := Some x,
               readTimerRef := Some (fst (fst (last rs)) + 200, c) \<rparr>"
      using snoc.IH [OF False window(1)] snoc.prems(3) by auto
    obtain b where b: "g x = Some b"
      using x(3) by auto
    let ?s1 = "s\<lparr> pendingLastSeenDateRef := Some x,
                   readTimerRef := Some (fst (fst (last rs)) + 200, c) \<rparr>"
    have step: "step g u ?s1 ((t, stamp), Intersections [e]) =
            ?s1\<lparr> pendingLastSeenDateRef := (if b < a then Some (createdAt e) else Some x),
                  readTimerRef := Some (t + 200, c) \<rparr>"
      using report_step [OF e, where s = ?s1 and c = c and t = t and u = u and stamp = stamp]
        assms(4) window(3)
        newer_later [OF a(1) x(2) b]
      by simp
    have run: "run g u (visibility_events (rs @ [r])) s =
            s\<lparr> pendingLastSeenDateRef := (if b < a then Some (createdAt e) else Some x),
                readTimerRef := Some (t + 200, c) \<rparr>"
      unfolding r visibility_events_snoc run_snoc x(6) step by simp
    show ?thesis
    proof (cases "b < a")
      case True
      have "\<forall>r \<in> set (rs @ [r]). the (g (createdAt (snd r))) \<le> the (g (createdAt e))"
        using x(4) b a True r by fastforce
      moreover have "\<forall>x0 \<in> set_option (pendingLastSeenDateRef s). the (g x0) \<le> the (g (createdAt e))"
        using x(5) b a True by fastforce
      ultimately show ?thesis
        using run True a r by (intro exI [of _ "createdAt e"]) simp
    next
      case False
      have "\<forall>r \<in> set (rs @ [r]). the (g (createdAt (snd r))) \<le> the (g x)"
        using x(4) b a False r by fastforce
      then show ?thesis
        using run False x(1,2,3,5) r by (intro exI [of _ x]) auto
    qed
  qed
qed

text \<open>
  C3, as the code has it. One or more reports that schedule, all inside one debounce
  window that starts with no timer armed, on an open socket: nothing is sent while the
  window lasts; when 200 ms have passed since the last report, exactly one
  \<open>mark_as_read\<close> is sent. Its \<open>last_seen_date\<close> is the latest among the clock strings
  of the reports and the cursor that was still pending when the window started (one that
  a timeout left behind when it fired on a socket that was not open): no report and no
  such cursor has a later instant. When no cursor was pending it is the clock string of
  one of the reports. The flush remembers it, clears the cursor and leaves no timer, so
  more time sends nothing more, and the socket and the observer are as before.
\<close>

theorem debounce_single_flush:
  assumes "reports \<noteq> []" and "in_window (map (\<lambda>r. fst (fst r)) reports)"
    and "\<forall>r \<in> set reports. schedules getTime (snd r)"
    and "wsOpen s" and "intersectionObserverRef s = Some c"
    and "readTimerRef s = None"
    and "case pendingLastSeenDateRef s of None \<Rightarrow> True
         | Some x0 \<Rightarrow> x0 \<noteq> [] \<and> getTime x0 \<noteq> None"
    and "fst (fst (last reports)) + 200 \<le> T"
  shows "let quiet = run getTime u (visibility_events reports) s;
             s' = elapse getTime u T quiet
         in sent quiet = sent s
          \<and> (\<exists>x \<in> (\<lambda>r. createdAt (snd r)) ` set reports \<union> set_option (pendingLastSeenDateRef s).
                sent s' = sent s @ [mark_as_read x u c]
              \<and> (\<forall>r \<in> set reports. the (getTime (createdAt (snd r))) \<le> the (getTime x))
              \<and> (\<forall>x0 \<in> set_option (pendingLastSeenDateRef s). the (getTime x0) \<le> the (getTime x))
              \<and> (pendingLastSeenDateRef s = None \<longrightarrow> x \<in> (\<lambda>r. createdAt (snd r)) ` set reports)
              \<and> lastSentReadDateRef s' = Some x)
          \<and> pendingLastSeenDateRef s' = None
          \<and> readTimerRef s' = None
          \<and> wsOpen s' \<and> intersectionObserverRef s' = Some c
          \<and> elapse getTime u T' s' = s'"
proof -
  obtain x where x: "x \<in> (\<lambda>r. createdAt (snd r)) ` set reports \<union> set_option (pendingLastSeenDateRef s)"
    "x \<noteq> []" "getTime x \<noteq> None"
    "\<forall>r \<in> set reports. the (getTime (createdAt (snd r))) \<le> the (getTime x)"
    "\<forall>x0 \<in> set_option (pendingLastSeenDateRef s). the (getTime x0) \<le> the (getTime x)"
    and quiet: "run getTime u (visibility_events reports) s
         = s\<lparr> pendingLastSeenDateRef := Some x,
               readTimerRef := Some (fst (fst (last reports)) + 200, c) \<rparr>"
    using burst_state [OF assms(1,2,3,5,6,7), of u] by blast
  obtain cutoff where cutoff: "getTime x = Some cutoff"
    using x(3) by auto
  let ?armed = "s\<lparr> pendingLastSeenDateRef := Some x,
                     readTimerRef := Some (fst (fst (last reports)) + 200, c) \<rparr>"
  let ?due = "s\<lparr> pendingLastSeenDateRef := Some x, readTimerRef := None \<rparr>"
  have due: "wsOpen ?due" "pendingLastSeenDateRef ?due = Some x"
    using assms(4) by (simp_all add: wsOpen_def)
  have fire: "elapse getTime u T ?armed = sendReadReceipts getTime u c ?due"
    using assms(8) by (simp add: elapse_def)
  note flush = sendReadReceipts_flush [where getTime = getTime and T = x and u = u and c = c,
      OF due x(2) cutoff]
  have after: "sent (elapse getTime u T ?armed) = sent s @ [mark_as_read x u c]"
    "lastSentReadDateRef (elapse getTime u T ?armed) = Some x"
    "pendingLastSeenDateRef (elapse getTime u T ?armed) = None"
    "readTimerRef (elapse getTime u T ?armed) = None"
    "wsOpen (elapse getTime u T ?armed)"
    "intersectionObserverRef (elapse getTime u T ?armed) = Some c"
    unfolding fire flush using assms(4,5) by (simp_all add: wsOpen_def)
  have again: "elapse getTime u T' (elapse getTime u T ?armed) = elapse getTime u T ?armed"
    using after(4) by (simp add: elapse_def)
  have "\<exists>x \<in> (\<lambda>r. createdAt (snd r)) ` set reports \<union> set_option (pendingLastSeenDateRef s).
          sent (elapse getTime u T ?armed) = sent s @ [mark_as_read x u c]
        \<and> (\<forall>r \<in> set reports. the (getTime (createdAt (snd r))) \<le> the (getTime x))
        \<and> (\<forall>x0 \<in> set_option (pendingLastSeenDateRef s). the (getTime x0) \<le> the (getTime x))
        \<and> (pendingLastSeenDateRef s = None \<longrightarrow> x \<in> (\<lambda>r. createdAt (snd r)) ` set reports)
        \<and> lastSentReadDateRef (elapse getTime u T ?armed) = Some x"
    using x(1,4,5) after(1,2) by (intro bexI [of _ x]) auto
  then show ?thesis
    unfolding Let_def quiet using after(3-6) again by simp
qed

lemma seen_schedules:
  "schedules sample_clock (seen T0)" "schedules sample_clock (seen T1)"
  "schedules sample_clock (seen T2)"
  by (simp_all add: schedules_def seen_def sample_clock_simps sample_strings_distinct)

theorem debounce_single_flush_witness:
  "[((1714557600000, T0), seen T1), ((1714557600100, T0), seen T2),
    ((1714557600250, T0), seen T0)] \<noteq> []
   \<and> in_window [1714557600000, 1714557600100, 1714557600250]
   \<and> schedules sample_clock (seen T1) \<and> schedules sample_clock (seen T2)
   \<and> schedules sample_clock (seen T0)
   \<and> wsOpen flushed_state \<and> intersectionObserverRef flushed_state = Some 7
   \<and> pendingLastSeenDateRef flushed_state = None \<and> readTimerRef flushed_state = None
   \<and> (1714557600250::nat) + 200 \<le> 1714557600450
   \<and> pendingLastSeenDateRef (elapse sample_clock 1 1714557600450
        (run sample_clock 1 (visibility_events
           [((1714557600000, T0), seen T1), ((1714557600100, T0), seen T2),
            ((1714557600250, T0), seen T0)]) flushed_state)) = None
   \<and> sent (elapse sample_clock 1 1714557600450
        (run sample_clock 1 (visibility_events
           [((1714557600000, T0), seen T1), ((1714557600100, T0), seen T2),
            ((1714557600250, T0), seen T0)]) flushed_state)) = [mark_as_read T2 1 7]"
proof -
  let ?reports = "[((1714557600000::nat, T0), seen T1), ((1714557600100, T0), seen T2),
    ((1714557600250, T0), seen T0)]"
  have h: "?reports \<noteq> []" "in_window (map (\<lambda>r. fst (fst r)) ?reports)"
    "\<forall>r \<in> set ?reports. schedules sample_clock (snd r)"
    "wsOpen flushed_state" "intersectionObserverRef flushed_state = Some 7"
    "readTimerRef flushed_state = None"
    "case pendingLastSeenDateRef flushed_state of None \<Rightarrow> True
     | Some x0 \<Rightarrow> x0 \<noteq> [] \<and> sample_clock x0 \<noteq> None"
    "fst (fst (last ?reports)) + 200 \<le> 1714557600450"
    by (simp_all add: seen_schedules flushed_state_def mounted_def wsOpen_def)
  have idle: "pendingLastSeenDateRef flushed_state = None"
    by (simp add: flushed_state_def mounted_def)
  have direct: "sent (elapse sample_clock 1 1714557600450
        (run sample_clock 1 (visibility_events ?reports) flushed_state)) = [mark_as_read T2 1 7]"
    by (simp add: run_def visibility_events_def step_def elapse_def observerCallback_def
        observeEntry_def scheduleReadReceipts_def seen_def newer_def sample_clock_simps
        sample_strings_distinct flushed_state_def mounted_def sendReadReceipts_def wsOpen_def
        Let_def)
  show ?thesis
    using debounce_single_flush [OF h, of 1 1714557600450] h(1,2,4,5,6,8) idle direct seen_schedules
    by (simp add: Let_def)
qed

lemma leftover_cursor_trace_result:
  "run sample_clock 1 leftover_cursor_trace mounted =
     mounted\<lparr> messages := [text_message 1 7 2 T1 False, text_message 3 7 2 T3 False],
              unreadCount := 2, firstUnreadId := Some 1,
              wsRef := Some \<lparr>ws_conversation = 7, readyState = OPEN\<rparr>,
              intersectionObserverRef := Some 7, conversationId := Some 7,
              pendingLastSeenDateRef := Some T3 \<rparr>"
  by (simp add: run_def leftover_cursor_trace_def step_unfold instants elapse_def mounted_def
      conversationChange_def cleanup_def fetchResolved_def loadMessages_def Let_def
      connectWebSocket_def setupIntersectionObserver_def wsOpen_def wsOpened_def
      observerCallback_def observeEntry_def scheduleReadReceipts_def seen_def newer_def
      sendReadReceipts_def compareFn_def
      sample_clock_simps sample_strings_distinct
      text_message_simps firstUnread_def unreadFromOthers_def)

text \<open>
  The claim C3 as stated fails on a window that starts with a cursor left over. After
  the run above the socket is open, no timer is armed and nothing was sent, but the cursor
  still holds \<open>T3\<close>. One report of the earlier instant \<open>T1\<close> then makes up the whole
  window; when it expires the one \<open>mark_as_read\<close> carries \<open>T3\<close>, which is not a
  timestamp scheduled in the window.
\<close>

theorem leftover_cursor_counterexample:
  "wsOpen (run sample_clock 1 leftover_cursor_trace mounted)
   \<and> readTimerRef (run sample_clock 1 leftover_cursor_trace mounted) = None
   \<and> sent (run sample_clock 1 leftover_cursor_trace mounted) = []
   \<and> pendingLastSeenDateRef (run sample_clock 1 leftover_cursor_trace mounted) = Some T3
   \<and> schedules sample_clock (seen T1)
   \<and> T3 \<noteq> T1
   \<and> sent (elapse sample_clock 1 (fst at3)
        (run sample_clock 1 (visibility_events [(at2, seen T1)])
          (run sample_clock 1 leftover_cursor_trace mounted))) = [mark_as_read T3 1 7]"
  unfolding leftover_cursor_trace_result
  by (simp add: run_def visibility_events_def step_unfold instants elapse_def mounted_def
      observerCallback_def observeEntry_def scheduleReadReceipts_def seen_def newer_def
      sendReadReceipts_def wsOpen_def Let_def schedules_def
      sample_clock_simps sample_strings_distinct)

end
